theory Spec2Isabelle
  imports Main "HOL-Library.Word"
begin

section \<open>The chronicle receiver: data model\<close>

text \<open>
  The embedding follows \<^verbatim>\<open>src/chronicle-receiver/receiver_plugin.cpp\<close> and
  \<^verbatim>\<open>chain_state_types.hpp\<close>. Unsigned machine integers are words, so that
  subtraction wraps as in C++. A \<^verbatim>\<open>checksum256\<close> is a 256-bit value compared for
  equality only; an \<^verbatim>\<open>abieos::name\<close> is its 64-bit value.
\<close>

type_synonym u32 = "32 word"
type_synonym u64 = "64 word"
type_synonym checksum256 = "256 word"
type_synonym bytes = "8 word list"
type_synonym name = u64
type_synonym block_timestamp = u32

text \<open>\<^verbatim>\<open>chain_state::block_position\<close>.\<close>

record block_position =
  block_num :: u32
  block_id :: checksum256

section \<open>Decoded frames\<close>

text \<open>
  The binary decoding library (abieos) is outside the repository. A buffer is therefore
  given by what decoding it yields: \<open>Inl msg\<close> is a failed \<^verbatim>\<open>bin_to_native\<close>, and a
  packed sequence (\<^verbatim>\<open>traces\<close>, \<^verbatim>\<open>deltas\<close>) is either unreadable as a whole
  (decompression or the leading count fails) or the results of the successive element
  decodings in wire order.
\<close>

datatype 'a packed = Bad_input string | Items "(string + 'a) list"

text \<open>\<^verbatim>\<open>action_trace\<close>, \<^verbatim>\<open>transaction_trace\<close>, \<^verbatim>\<open>signed_block\<close>,
  \<^verbatim>\<open>account_object\<close>, \<^verbatim>\<open>key_value_object\<close>: the fields the receiver reads.\<close>

record action_trace =
  at_account :: name
  at_name :: name

record transaction_trace =
  tt_id :: checksum256
  tt_traces :: "action_trace list"

record signed_block =
  sb_timestamp :: block_timestamp
  sb_producer :: name

record account_object =
  acc_name :: name
  acc_abi :: bytes

record key_value_object =
  kvo_code :: name
  kvo_scope :: name
  kvo_table :: name
  kvo_primary_key :: u64
  kvo_payer :: name
  kvo_bytes :: bytes

text \<open>
  \<^verbatim>\<open>row\<close>: \<open>row_tag\<close> is the leading varuint32 of \<^verbatim>\<open>data\<close> that
  \<^verbatim>\<open>check_variant\<close> reads (\<open>None\<close>: unreadable); \<open>row_data\<close> is what the rest
  of the buffer decodes to.
\<close>

datatype row_data =
  Account_row account_object
| Contract_row key_value_object
| Opaque_row bytes

record row =
  present :: bool
  row_tag :: "u32 option"
  row_data :: row_data

record table_delta_v0 =
  td_name :: string
  td_rows :: "row list"

text \<open>\<^verbatim>\<open>get_blocks_result_v0\<close>.\<close>

record get_blocks_result_v0 =
  result_head :: block_position
  last_irreversible :: block_position
  this_block :: "block_position option"
  prev_block :: "block_position option"
  block :: "(string + signed_block) option"
  traces :: "transaction_trace packed option"
  deltas :: "table_delta_v0 packed option"

section \<open>Channel events\<close>

text \<open>
  Modelled from the spec: the channel events of section 3. Their structures are declared
  in \<^verbatim>\<open>receiver_plugin.hpp\<close>, which is not among the sources; there is one
  constructor per structure that \<^verbatim>\<open>receiver_plugin.cpp\<close> fills in, and its
  arguments are the fields assigned there, in assignment order (the decoded
  \<^verbatim>\<open>abi_def\<close> of an ABI update is left out). The list \<open>published\<close> of the
  receiver state records every \<^verbatim>\<open>publish\<close> call in order, whether or not the
  channel has subscribers.
\<close>

datatype fork_reason_val = Network | Restart

datatype event =
  Fork_event u32 u32 fork_reason_val
| Block_event u32 u32 signed_block
| Block_table_delta_event block_timestamp table_delta_v0
| Transaction_trace_event u32 block_timestamp transaction_trace
| Abi_update_event u32 block_timestamp name bytes
| Abi_removal_event u32 block_timestamp name
| Abi_error_event u32 block_timestamp name string
| Table_row_update_event u32 block_timestamp bool key_value_object
| Receiver_pause_event u32 u32

datatype channel =
  Forks | Blocks | Block_table_deltas | Transaction_traces | Abi_updates
| Abi_removals | Abi_errors | Table_row_updates | Receiver_pauses

section \<open>The persistent store\<close>

text \<open>
  The three tables declared at the top of \<^verbatim>\<open>receiver_plugin.cpp\<close>: the singleton
  \<^verbatim>\<open>state_object\<close>, the \<^verbatim>\<open>received_block_object\<close> rows (unique by
  \<^verbatim>\<open>block_index\<close>) and the \<^verbatim>\<open>contract_abi_object\<close> rows (unique by account).
\<close>

record state_object =
  so_head :: u32
  so_head_id :: checksum256
  so_irreversible :: u32
  so_irreversible_id :: checksum256

record db_tables =
  state_table :: "state_object option"
  received_blocks_table :: "(u32 \<times> checksum256) list"
  contract_abi_objects_table :: "u64 \<rightharpoonup> bytes"

text \<open>
  Modelled from the spec: the revisioned store (the chainbase library, which is not among
  the repository's sources). Section 3 of the spec names its operations:
  \<^verbatim>\<open>set_revision(n)\<close>, \<^verbatim>\<open>start_undo_scope()\<close>, \<^verbatim>\<open>push()\<close>, \<^verbatim>\<open>undo()\<close>
  (discard the top scope; fails at the baseline) and \<^verbatim>\<open>commit(n)\<close> (fuse all
  scopes with revision \<open>\<le> n\<close> into the baseline). A scope on the undo stack (newest
  first) carries its revision number and the tables as they were when it was opened.
  The list \<open>commits\<close> records the arguments of the \<^verbatim>\<open>commit\<close> calls in order;
  it is not part of the stored data.
\<close>

record database =
  revision :: int
  undo_stack :: "(int \<times> db_tables) list"
  tables :: db_tables
  commits :: "int list"

text \<open>Modelled from the spec: \<^verbatim>\<open>set_revision(n)\<close> of the store sets its revision.\<close>

definition set_revision :: "int \<Rightarrow> database \<Rightarrow> database" where
  "set_revision n d = d\<lparr>revision := n\<rparr>"

text \<open>
  Modelled from the spec: \<^verbatim>\<open>start_undo_scope()\<close> and \<^verbatim>\<open>push()\<close> of the store.
  The scope is opened at the revision \<open>n\<close> the store is at, and \<^verbatim>\<open>push()\<close>
  materializes it as revision \<open>n\<close> (section 3): opening and pushing leave the
  revision where it is, so that the store whose revision was set to \<open>b\<close> is at
  revision \<open>b\<close> after the push (section 4.3, steps 1, 3 and 8), and after blocks 100
  to 103 and \<^verbatim>\<open>commit(101)\<close> two scopes are left (section 8, scenario 1). The scope
  saves the tables as they are when it is opened; a pushed scope stays on the undo
  stack.
\<close>

definition start_undo_session :: "database \<Rightarrow> database" where
  "start_undo_session d = d\<lparr>undo_stack := (revision d, tables d) # undo_stack d\<rparr>"

text \<open>
  Modelled from the spec: \<^verbatim>\<open>undo()\<close> of the store discards the top scope, restoring
  the tables it saved and stepping the revision back by one; at the baseline (no
  scope) it fails.
\<close>

datatype error =
  Undo_at_baseline
| Cannot_rollback int
| Prev_block_mismatch
| Uniqueness_violation
| End_dereferenced
| Conversion_error string
| Type_error string
| Acked_below_acknowledged

definition undo :: "database \<Rightarrow> error + database" where
  "undo d =
     (case undo_stack d of
        [] \<Rightarrow> Inl Undo_at_baseline
      | sc # rest \<Rightarrow>
          Inr (d\<lparr>revision := revision d - 1, undo_stack := rest, tables := snd sc\<rparr>))"

text \<open>
  Modelled from the spec: a scope that is left without \<^verbatim>\<open>push()\<close> is dropped.
  The mutations made since it was opened are discarded and the scope leaves the
  stack; the revision is the one it was opened at, and stays.
\<close>

definition drop_session :: "database \<Rightarrow> database" where
  "drop_session d =
     (case undo_stack d of
        [] \<Rightarrow> d
      | sc # rest \<Rightarrow> d\<lparr>undo_stack := rest, tables := snd sc\<rparr>)"

text \<open>
  Modelled from the spec: \<^verbatim>\<open>commit(n)\<close> of the store fuses all scopes with revision
  \<open>\<le> n\<close> into the baseline: they leave the undo stack.
\<close>

definition commit :: "int \<Rightarrow> database \<Rightarrow> database" where
  "commit n d =
     d\<lparr>undo_stack := filter (\<lambda>sc. n < fst sc) (undo_stack d),
       commits := commits d @ [n]\<rparr>"

section \<open>The receiver state\<close>

text \<open>
  Modelled from the spec: an \<^verbatim>\<open>abi_type\<close> of the protocol schema (abieos, not among
  the sources), by the three facts \<^verbatim>\<open>receive_deltas\<close> and \<^verbatim>\<open>check_variant\<close> read
  from it: \<^verbatim>\<open>filled_variant\<close>, \<^verbatim>\<open>fields.size()\<close> and whether the first field's
  type is a filled struct.
\<close>

record abi_type =
  filled_variant :: bool
  field_count :: nat
  first_field_struct :: bool

text \<open>
  Modelled from the spec: the ABI decoder capability of section 6 (abieos, not among the
  sources). Which serialized ABIs the library accepts, the error text it reports and
  whether the bytes read back as an \<^verbatim>\<open>abi_def\<close> (\<open>Some msg\<close>: they do not) are
  parameters.
\<close>

record abieos =
  set_abi_bin_accepts :: "bytes \<Rightarrow> bool"
  get_error :: "bytes \<Rightarrow> string"
  abi_def_unreadable :: "bytes \<Rightarrow> string option"

text \<open>
  The members of \<^verbatim>\<open>receiver_plugin_impl\<close> that the modelled functions read or
  write. \<open>contract_abi_ctxt\<close> is \<open>None\<close> for the null pointer and otherwise the
  ABIs installed in the decoder context; \<open>mytimer\<close> is the duration last armed;
  \<open>has_subscribers\<close> answers for each channel; \<open>published\<close> is the sequence of
  events handed to \<^verbatim>\<open>publish\<close>.
\<close>

record receiver_plugin_impl =
  db :: database
  aborting :: bool
  head :: u32
  head_id :: checksum256
  irreversible :: u32
  irreversible_id :: checksum256
  block_timestamp :: block_timestamp
  abi_types :: "string \<rightharpoonup> abi_type"
  contract_abi_ctxt :: "(u64 \<rightharpoonup> bytes) option"
  contract_abi_imported :: "u64 set"
  blacklist_actions :: "name \<rightharpoonup> name set"
  exporter_will_ack :: bool
  exporter_acked_block :: u32
  exporter_max_unconfirmed :: u32
  mytimer :: "u32 option"
  pause_time_msec :: u32
  slowdown_requested :: bool
  max_queue_size :: u32
  has_subscribers :: "channel \<Rightarrow> bool"
  published :: "event list"

definition publish :: "event \<Rightarrow> receiver_plugin_impl \<Rightarrow> receiver_plugin_impl" where
  "publish e s = s\<lparr>published := published s @ [e]\<rparr>"

text \<open>
  A step that may throw: \<open>Some e\<close> is the exception, paired with the state at the
  throw. \<open>and_then\<close> runs the next statement unless the previous one threw.
\<close>

definition and_then ::
  "error option \<times> receiver_plugin_impl \<Rightarrow>
   (receiver_plugin_impl \<Rightarrow> error option \<times> receiver_plugin_impl) \<Rightarrow>
   error option \<times> receiver_plugin_impl" where
  "and_then r f = (case r of (None, s) \<Rightarrow> f s | (Some e, s) \<Rightarrow> (Some e, s))"

section \<open>Backpressure: \<^verbatim>\<open>check_pause\<close> and \<^verbatim>\<open>continue_read\<close>\<close>

text \<open>The condition of \<^verbatim>\<open>check_pause\<close> (lines 341-343); \<open>queue_size\<close> is
  \<^verbatim>\<open>app().get_priority_queue().size()\<close>.\<close>

definition must_pause :: "nat \<Rightarrow> receiver_plugin_impl \<Rightarrow> bool" where
  "must_pause queue_size s \<longleftrightarrow>
     slowdown_requested s \<or>
     (exporter_will_ack s \<and>
        exporter_max_unconfirmed s \<le> head s - exporter_acked_block s) \<or>
     unat (max_queue_size s) < queue_size"

text \<open>The update of \<^verbatim>\<open>pause_time_msec\<close> (lines 347-352).\<close>

definition next_pause :: "u32 \<Rightarrow> u32" where
  "next_pause p = (if p = 0 then 100 else if p < 8000 then p * 2 else p)"

definition check_pause :: "nat \<Rightarrow> receiver_plugin_impl \<Rightarrow> bool \<times> receiver_plugin_impl" where
  "check_pause queue_size s =
     (if must_pause queue_size s then
        let s1 = s\<lparr>slowdown_requested := False\<rparr>;
            s2 = s1\<lparr>pause_time_msec := next_pause (pause_time_msec s1)\<rparr>;
            s3 = (if 2000 \<le> pause_time_msec s2
                  then publish (Receiver_pause_event (head s2) (exporter_acked_block s2)) s2
                  else s2)
        in (False, s3\<lparr>mytimer := Some (pause_time_msec s3)\<rparr>)
      else (True, s))"

text \<open>\<^verbatim>\<open>continue_read\<close>: \<open>True\<close> when a read was started.\<close>

definition continue_read :: "nat \<Rightarrow> receiver_plugin_impl \<Rightarrow> bool \<times> receiver_plugin_impl" where
  "continue_read queue_size s =
     (case check_pause queue_size s of
        (True, s') \<Rightarrow> (True, s'\<lparr>pause_time_msec := 0\<rparr>)
      | (False, s') \<Rightarrow> (False, s'))"

text \<open>
  The timer loop: each expiry of \<^verbatim>\<open>mytimer\<close> calls \<^verbatim>\<open>continue_read\<close> again.
  \<open>pause_loop n\<close> follows at most \<open>n\<close> consecutive calls, stops when a read is
  started, and returns the durations armed and the state reached.
\<close>

fun pause_loop :: "nat \<Rightarrow> nat \<Rightarrow> receiver_plugin_impl \<Rightarrow> u32 list \<times> receiver_plugin_impl" where
  "pause_loop 0 queue_size s = ([], s)"
| "pause_loop (Suc n) queue_size s =
     (case continue_read queue_size s of
        (True, s') \<Rightarrow> ([], s')
      | (False, s') \<Rightarrow>
          (case pause_loop n queue_size s' of
             (ds, s'') \<Rightarrow> (pause_time_msec s' # ds, s'')))"

section \<open>The ABI registry\<close>

text \<open>\<^verbatim>\<open>init_contract_abi_ctxt\<close> (lines 620-627): an existing context is destroyed
  and the imported set cleared; a new, empty context is created.\<close>

definition init_contract_abi_ctxt :: "receiver_plugin_impl \<Rightarrow> receiver_plugin_impl" where
  "init_contract_abi_ctxt s =
     (case contract_abi_ctxt s of
        Some c \<Rightarrow> s\<lparr>contract_abi_imported := {}, contract_abi_ctxt := Some Map.empty\<rparr>
      | None \<Rightarrow> s\<lparr>contract_abi_ctxt := Some Map.empty\<rparr>)"

text \<open>
  Modelled from the spec: \<^verbatim>\<open>set_abi_bin(ctx, account, bytes) \<rightarrow> ok\<close> of the ABI decoder
  capability (abieos, not among the sources). \<open>None\<close> is the result \<^verbatim>\<open>false\<close> (a null
  context, or bytes the library does not accept; the context is unchanged);
  \<open>Some c\<close> is \<^verbatim>\<open>true\<close> with the context now holding the ABI for the account.
\<close>

definition abieos_set_abi_bin ::
  "abieos \<Rightarrow> (u64 \<rightharpoonup> bytes) option \<Rightarrow> u64 \<Rightarrow> bytes \<Rightarrow> (u64 \<rightharpoonup> bytes) option" where
  "abieos_set_abi_bin A ctx account abi =
     (case ctx of
        None \<Rightarrow> None
      | Some c \<Rightarrow> if set_abi_bin_accepts A abi then Some (c(account \<mapsto> abi)) else None)"

text \<open>The writes to the \<^verbatim>\<open>contract_abi_index\<close>: \<^verbatim>\<open>modify\<close> or \<^verbatim>\<open>create\<close> of the
  row of an account (lines 662-674), and \<^verbatim>\<open>remove\<close> (line 637).\<close>

definition put_contract_abi :: "u64 \<Rightarrow> bytes \<Rightarrow> database \<Rightarrow> database" where
  "put_contract_abi account abi d =
     d\<lparr>tables := (tables d)\<lparr>contract_abi_objects_table :=
          (contract_abi_objects_table (tables d))(account \<mapsto> abi)\<rparr>\<rparr>"

definition remove_contract_abi :: "u64 \<Rightarrow> database \<Rightarrow> database" where
  "remove_contract_abi account d =
     d\<lparr>tables := (tables d)\<lparr>contract_abi_objects_table :=
          (contract_abi_objects_table (tables d))(account := None)\<rparr>\<rparr>"

text \<open>\<^verbatim>\<open>clear_contract_abi\<close> (lines 630-645).\<close>

definition clear_contract_abi :: "name \<Rightarrow> receiver_plugin_impl \<Rightarrow> receiver_plugin_impl" where
  "clear_contract_abi account s =
     (let s1 = (if account \<in> contract_abi_imported s then init_contract_abi_ctxt s else s)
      in case contract_abi_objects_table (tables (db s1)) account of
           None \<Rightarrow> s1
         | Some abi \<Rightarrow>
             publish (Abi_removal_event (head s1) (block_timestamp s1) account)
               (s1\<lparr>db := remove_contract_abi account (db s1)\<rparr>))"

text \<open>
  \<^verbatim>\<open>save_contract_abi\<close> (lines 649-698). The \<^verbatim>\<open>try\<close> block throws when
  \<^verbatim>\<open>abieos_set_abi_bin\<close> returns false, and when the bytes do not read back as an
  \<^verbatim>\<open>abi_def\<close> for the update event; the \<^verbatim>\<open>catch\<close> publishes an
  \<^verbatim>\<open>abi_error\<close> in both cases.
\<close>

definition save_contract_abi ::
  "abieos \<Rightarrow> name \<Rightarrow> bytes \<Rightarrow> receiver_plugin_impl \<Rightarrow> receiver_plugin_impl" where
  "save_contract_abi A account abi s =
     (let s1 = (if account \<in> contract_abi_imported s then init_contract_abi_ctxt s else s)
      in case abieos_set_abi_bin A (contract_abi_ctxt s1) account abi of
           None \<Rightarrow>
             publish (Abi_error_event (head s1) (block_timestamp s1) account (get_error A abi)) s1
         | Some c \<Rightarrow>
             let s2 = s1\<lparr>contract_abi_ctxt := Some c,
                        contract_abi_imported := insert account (contract_abi_imported s1)\<rparr>;
                 s3 = s2\<lparr>db := put_contract_abi account abi (db s2)\<rparr>
             in if has_subscribers s3 Abi_updates then
                  (case abi_def_unreadable A abi of
                     Some msg \<Rightarrow>
                       publish (Abi_error_event (head s3) (block_timestamp s3) account msg) s3
                   | None \<Rightarrow>
                       publish (Abi_update_event (head s3) (block_timestamp s3) account abi) s3)
                else s3)"

text \<open>\<^verbatim>\<open>get_contract_abi_ready\<close> (lines 701-713); the result of
  \<^verbatim>\<open>abieos_set_abi_bin\<close> is not looked at.\<close>

definition get_contract_abi_ready ::
  "abieos \<Rightarrow> name \<Rightarrow> receiver_plugin_impl \<Rightarrow> bool \<times> receiver_plugin_impl" where
  "get_contract_abi_ready A account s =
     (if account \<in> contract_abi_imported s then (True, s)
      else case contract_abi_objects_table (tables (db s)) account of
             Some abi \<Rightarrow>
               (True,
                s\<lparr>contract_abi_ctxt :=
                     (case abieos_set_abi_bin A (contract_abi_ctxt s) account abi of
                        None \<Rightarrow> contract_abi_ctxt s
                      | Some c \<Rightarrow> Some c),
                   contract_abi_imported := insert account (contract_abi_imported s)\<rparr>)
           | None \<Rightarrow> (False, s))"

section \<open>Blocks, deltas and traces\<close>

text \<open>\<^verbatim>\<open>receive_block\<close> (lines 517-541); the log lines are left out.\<close>

definition receive_block ::
  "string + signed_block \<Rightarrow> receiver_plugin_impl \<Rightarrow> error option \<times> receiver_plugin_impl" where
  "receive_block bin s =
     (case bin of
        Inl msg \<Rightarrow> (Some (Conversion_error msg), s)
      | Inr b \<Rightarrow>
          (None,
           publish (Block_event (head s) (irreversible s) b)
             (s\<lparr>block_timestamp := sb_timestamp b\<rparr>)))"

text \<open>\<^verbatim>\<open>check_variant(row.data, variant_type, 0u)\<close> (lines 769-780) on one row, and
  the loop of lines 569-571 over the rows.\<close>

definition check_variant :: "abi_type \<Rightarrow> row \<Rightarrow> error option" where
  "check_variant ty r =
     (case row_tag r of
        None \<Rightarrow> Some (Conversion_error ''read_varuint32'')
      | Some i \<Rightarrow>
          if \<not> filled_variant ty then Some (Type_error ''is not a variant'')
          else if field_count ty \<le> unat i then Some (Type_error ''expected'')
          else if i \<noteq> 0 then Some (Type_error ''expected'')
          else None)"

fun check_rows :: "abi_type \<Rightarrow> row list \<Rightarrow> error option" where
  "check_rows ty [] = None"
| "check_rows ty (r # rs) =
     (case check_variant ty r of Some e \<Rightarrow> Some e | None \<Rightarrow> check_rows ty rs)"

text \<open>The rows of an \<^verbatim>\<open>account\<close> delta (lines 574-587).\<close>

fun account_rows ::
  "abieos \<Rightarrow> row list \<Rightarrow> receiver_plugin_impl \<Rightarrow> error option \<times> receiver_plugin_impl" where
  "account_rows A [] s = (None, s)"
| "account_rows A (r # rs) s =
     (if present r then
        (case row_data r of
           Account_row acc \<Rightarrow>
             account_rows A rs
               (if acc_abi acc = [] then clear_contract_abi (acc_name acc) s
                else save_contract_abi A (acc_name acc) (acc_abi acc) s)
         | Contract_row kvo \<Rightarrow> (Some (Conversion_error ''account row conversion error''), s)
         | Opaque_row bs \<Rightarrow> (Some (Conversion_error ''account row conversion error''), s))
      else account_rows A rs s)"

text \<open>The rows of a \<^verbatim>\<open>contract_row\<close> delta (lines 592-612).\<close>

fun contract_rows ::
  "abieos \<Rightarrow> row list \<Rightarrow> receiver_plugin_impl \<Rightarrow> error option \<times> receiver_plugin_impl" where
  "contract_rows A [] s = (None, s)"
| "contract_rows A (r # rs) s =
     (case row_data r of
        Contract_row kvo \<Rightarrow>
          (case get_contract_abi_ready A (kvo_code kvo) s of
             (True, s1) \<Rightarrow>
               contract_rows A rs
                 (publish (Table_row_update_event (head s1) (block_timestamp s1) (present r) kvo) s1)
           | (False, s1) \<Rightarrow>
               contract_rows A rs
                 (publish (Abi_error_event (head s1) (block_timestamp s1) (kvo_code kvo)
                    ''cannot decode table delta because of missing ABI'') s1))
      | Account_row acc \<Rightarrow> (Some (Conversion_error ''cannot read table row object''), s)
      | Opaque_row bs \<Rightarrow> (Some (Conversion_error ''cannot read table row object''), s))"

text \<open>
  One \<^verbatim>\<open>table_delta\<close> of \<^verbatim>\<open>receive_deltas\<close> (lines 563-615), once it is decoded:
  the type lookup and shape check, the variant check of every row, the dispatch on
  the table name, and the \<^verbatim>\<open>block_table_delta\<close> event.
\<close>

definition receive_delta ::
  "abieos \<Rightarrow> table_delta_v0 \<Rightarrow> receiver_plugin_impl \<Rightarrow> error option \<times> receiver_plugin_impl" where
  "receive_delta A td s =
     (case abi_types s (td_name td) of
        None \<Rightarrow> (Some (Type_error ''unknown type''), s)
      | Some ty \<Rightarrow>
          if filled_variant ty \<and> field_count ty = 1 \<and> first_field_struct ty then
            (case check_rows ty (td_rows td) of
               Some e \<Rightarrow> (Some e, s)
             | None \<Rightarrow>
                 and_then
                   (if td_name td = ''account'' then account_rows A (td_rows td) s
                    else if td_name td = ''contract_row'' \<and>
                            (has_subscribers s Table_row_updates \<or> has_subscribers s Abi_errors)
                         then contract_rows A (td_rows td) s
                    else (None, s))
                   (\<lambda>s1. (None, publish (Block_table_delta_event (block_timestamp s) td) s1)))
          else (Some (Type_error ''do not know how to process''), s))"

text \<open>\<^verbatim>\<open>receive_deltas\<close> (lines 545-617): the loop over the deltas in wire order.\<close>

fun deltas_loop ::
  "abieos \<Rightarrow> (string + table_delta_v0) list \<Rightarrow> receiver_plugin_impl \<Rightarrow>
   error option \<times> receiver_plugin_impl" where
  "deltas_loop A [] s = (None, s)"
| "deltas_loop A (Inl msg # rest) s = (Some (Conversion_error msg), s)"
| "deltas_loop A (Inr td # rest) s = and_then (receive_delta A td s) (deltas_loop A rest)"

definition receive_deltas ::
  "abieos \<Rightarrow> table_delta_v0 packed \<Rightarrow> receiver_plugin_impl \<Rightarrow>
   error option \<times> receiver_plugin_impl" where
  "receive_deltas A buf s =
     (case buf of
        Bad_input msg \<Rightarrow> (Some (Conversion_error msg), s)
      | Items xs \<Rightarrow> deltas_loop A xs s)"

text \<open>The blacklist check of \<^verbatim>\<open>receive_traces\<close> (lines 729-738).\<close>

definition blacklisted :: "(name \<rightharpoonup> name set) \<Rightarrow> transaction_trace \<Rightarrow> bool" where
  "blacklisted bl tr =
     (case tt_traces tr of
        [] \<Rightarrow> False
      | a # rest \<Rightarrow>
          (case bl (at_account a) of
             None \<Rightarrow> False
           | Some acts \<Rightarrow> at_name a \<in> acts))"

text \<open>\<^verbatim>\<open>receive_traces\<close> (lines 716-746).\<close>

fun traces_loop ::
  "(string + transaction_trace) list \<Rightarrow> receiver_plugin_impl \<Rightarrow>
   error option \<times> receiver_plugin_impl" where
  "traces_loop [] s = (None, s)"
| "traces_loop (Inl msg # rest) s = (Some (Conversion_error msg), s)"
| "traces_loop (Inr tr # rest) s =
     traces_loop rest
       (if \<not> blacklisted (blacklist_actions s) tr
        then publish (Transaction_trace_event (head s) (block_timestamp s) tr) s
        else s)"

definition receive_traces ::
  "transaction_trace packed \<Rightarrow> receiver_plugin_impl \<Rightarrow> error option \<times> receiver_plugin_impl" where
  "receive_traces buf s =
     (if has_subscribers s Transaction_traces then
        (case buf of
           Bad_input msg \<Rightarrow> (Some (Conversion_error msg), s)
         | Items xs \<Rightarrow> traces_loop xs s)
      else (None, s))"

section \<open>\<^verbatim>\<open>receive_result\<close>\<close>

text \<open>Lines 437-440: the store revision is raised to the block number.\<close>

definition raise_revision :: "u32 \<Rightarrow> receiver_plugin_impl \<Rightarrow> receiver_plugin_impl" where
  "raise_revision bn s =
     (if revision (db s) < uint bn then s\<lparr>db := set_revision (uint bn) (db s)\<rparr> else s)"

text \<open>The loop of lines 448-450: undo while the revision is not below the block.
  It ends, since every turn removes a scope and \<^verbatim>\<open>undo\<close> fails when none is left.\<close>

function rollback :: "int \<Rightarrow> database \<Rightarrow> error option \<times> database" where
  "rollback b d =
     (if b \<le> revision d then
        (case undo d of
           Inl e \<Rightarrow> (Some e, d)
         | Inr d' \<Rightarrow> rollback b d')
      else (None, d))"
  by pat_completeness auto
termination
  by (relation "measure (\<lambda>(b, d). length (undo_stack d))")
     (auto simp: undo_def split: list.splits)

declare rollback.simps [simp del]

text \<open>The fork branch (lines 445-461).\<close>

definition handle_fork :: "u32 \<Rightarrow> receiver_plugin_impl \<Rightarrow> error option \<times> receiver_plugin_impl" where
  "handle_fork bn s =
     (let depth = head s - bn;
          s1 = init_contract_abi_ctxt s
      in case rollback (uint bn) (db s1) of
           (Some e, d) \<Rightarrow> (Some e, s1\<lparr>db := d\<rparr>)
         | (None, d) \<Rightarrow>
             if revision d \<le> 0 then (Some (Cannot_rollback (revision d)), s1\<lparr>db := d\<rparr>)
             else (None, publish (Fork_event bn depth Network) (s1\<lparr>db := d\<rparr>)))"

text \<open>Lines 442-466: the block is above the last irreversible one.\<close>

definition head_branch ::
  "get_blocks_result_v0 \<Rightarrow> u32 \<Rightarrow> receiver_plugin_impl \<Rightarrow>
   error option \<times> receiver_plugin_impl" where
  "head_branch result bn s =
     (if block_num (last_irreversible result) < bn then
        if bn \<le> head s then handle_fork bn s
        else if 0 < head s \<and>
                (case prev_block result of
                   None \<Rightarrow> True
                 | Some pb \<Rightarrow> block_id pb \<noteq> head_id s)
             then (Some Prev_block_mismatch, s)
        else (None, s)
      else (None, s))"

text \<open>
  The \<^verbatim>\<open>by_blocknum\<close> index of the received blocks: \<^verbatim>\<open>begin()\<close> is the row with
  the least \<^verbatim>\<open>block_index\<close> (\<open>None\<close>: the index is empty and \<^verbatim>\<open>begin()\<close> is
  \<^verbatim>\<open>end()\<close>).
\<close>

fun idx_begin :: "(u32 \<times> checksum256) list \<Rightarrow> (u32 \<times> checksum256) option" where
  "idx_begin [] = None"
| "idx_begin (e # es) =
     (case idx_begin es of
        None \<Rightarrow> Some e
      | Some m \<Rightarrow> if fst m < fst e then Some m else Some e)"

lemma idx_begin_in_set: "idx_begin rs = Some e \<Longrightarrow> e \<in> set rs"
  by (induction rs arbitrary: e) (auto split: option.splits if_splits)

text \<open>
  The loop of lines 478-482. Its condition reads \<^verbatim>\<open>itr->block_index\<close> before it
  compares \<^verbatim>\<open>itr\<close> with \<^verbatim>\<open>end()\<close>; on an empty index that read is undefined, which
  is the result \<open>None\<close>.
\<close>

function truncate_old_blocks ::
  "u32 \<Rightarrow> (u32 \<times> checksum256) list \<Rightarrow> (u32 \<times> checksum256) list option" where
  "truncate_old_blocks irr rs =
     (case idx_begin rs of
        None \<Rightarrow> None
      | Some e \<Rightarrow> if fst e < irr then truncate_old_blocks irr (remove1 e rs) else Some rs)"
  by pat_completeness auto
termination
proof (relation "measure (\<lambda>(irr, rs). length rs)")
  show "wf (measure (\<lambda>(irr, rs). length rs))"
    by simp
next
  fix irr :: u32 and rs :: "(u32 \<times> checksum256) list" and e
  assume "idx_begin rs = Some e"
  then have "e \<in> set rs"
    by (rule idx_begin_in_set)
  then have "length (remove1 e rs) < length rs"
    by (simp add: length_remove1) (cases rs; simp)
  then show "((irr, remove1 e rs), (irr, rs)) \<in> measure (\<lambda>(irr, rs). length rs)"
    by simp
qed

declare truncate_old_blocks.simps [simp del]

definition set_received_blocks :: "(u32 \<times> checksum256) list \<Rightarrow> database \<Rightarrow> database" where
  "set_received_blocks rs d = d\<lparr>tables := (tables d)\<lparr>received_blocks_table := rs\<rparr>\<rparr>"

text \<open>
  Lines 470-483: the new block is added to the received blocks (\<^verbatim>\<open>create\<close> throws
  when the unique index already has the block number) and old blocks are truncated
  up to the previously known irreversible block.
\<close>

definition add_received_block ::
  "u32 \<Rightarrow> checksum256 \<Rightarrow> receiver_plugin_impl \<Rightarrow> error option \<times> receiver_plugin_impl" where
  "add_received_block bn bid s =
     (if irreversible s < bn then
        if bn \<in> fst ` set (received_blocks_table (tables (db s)))
        then (Some Uniqueness_violation, s)
        else
          (case truncate_old_blocks (irreversible s)
                  (received_blocks_table (tables (db s)) @ [(bn, bid)]) of
             None \<Rightarrow> (Some End_dereferenced, s)
           | Some rs \<Rightarrow> (None, s\<lparr>db := set_received_blocks rs (db s)\<rparr>))
      else (None, s))"

text \<open>Lines 485-488.\<close>

definition set_positions ::
  "block_position \<Rightarrow> block_position \<Rightarrow> receiver_plugin_impl \<Rightarrow> receiver_plugin_impl" where
  "set_positions tb li s =
     s\<lparr>head := block_num tb, head_id := block_id tb,
       irreversible := block_num li, irreversible_id := block_id li\<rparr>"

text \<open>Lines 490-495.\<close>

definition receive_payloads ::
  "abieos \<Rightarrow> get_blocks_result_v0 \<Rightarrow> receiver_plugin_impl \<Rightarrow>
   error option \<times> receiver_plugin_impl" where
  "receive_payloads A result s =
     and_then
       (and_then
          (case block result of None \<Rightarrow> (None, s) | Some b \<Rightarrow> receive_block b s)
          (\<lambda>s1. case deltas result of None \<Rightarrow> (None, s1) | Some ds \<Rightarrow> receive_deltas A ds s1))
       (\<lambda>s2. case traces result of None \<Rightarrow> (None, s2) | Some ts \<Rightarrow> receive_traces ts s2)"

text \<open>\<^verbatim>\<open>save_state\<close> (lines 290-309): the singleton is modified or created.\<close>

definition save_state :: "receiver_plugin_impl \<Rightarrow> receiver_plugin_impl" where
  "save_state s =
     s\<lparr>db := (db s)\<lparr>tables := (tables (db s))\<lparr>state_table :=
          Some \<lparr>so_head = head s, so_head_id = head_id s,
                so_irreversible = irreversible s,
                so_irreversible_id = irreversible_id s\<rparr>\<rparr>\<rparr>\<rparr>"

text \<open>Lines 504-507.\<close>

definition commit_rev :: "receiver_plugin_impl \<Rightarrow> u32" where
  "commit_rev s =
     (if exporter_will_ack s \<and> exporter_acked_block s < irreversible s
      then exporter_acked_block s
      else irreversible s)"

text \<open>Lines 500-510: the state is saved, the session pushed (it stays on the undo
  stack) and the store committed.\<close>

definition finish_block :: "receiver_plugin_impl \<Rightarrow> receiver_plugin_impl" where
  "finish_block s =
     (let s1 = save_state s in s1\<lparr>db := commit (uint (commit_rev s1)) (db s1)\<rparr>)"

text \<open>Lines 468-498: the part of \<^verbatim>\<open>receive_result\<close> inside the undo session.\<close>

definition in_session ::
  "abieos \<Rightarrow> get_blocks_result_v0 \<Rightarrow> block_position \<Rightarrow> receiver_plugin_impl \<Rightarrow>
   error option \<times> receiver_plugin_impl" where
  "in_session A result tb s =
     and_then (add_received_block (block_num tb) (block_id tb) s)
       (\<lambda>s1. receive_payloads A result (set_positions tb (last_irreversible result) s1))"

text \<open>
  The result of handling one frame: an exception (which \<^verbatim>\<open>catch_and_close\<close>
  turns into closing the socket) or the returned flag.
\<close>

datatype outcome = Threw error | Returned bool

text \<open>
  \<^verbatim>\<open>receive_result\<close> (lines 419-511), from the decoded \<^verbatim>\<open>get_blocks_result_v0\<close>
  on. When the function is left without \<^verbatim>\<open>push\<close> (an exception, or \<^verbatim>\<open>aborting\<close>)
  the session object is destroyed and its scope undone.
\<close>

definition receive_result ::
  "abieos \<Rightarrow> get_blocks_result_v0 \<Rightarrow> receiver_plugin_impl \<Rightarrow> outcome \<times> receiver_plugin_impl" where
  "receive_result A result s =
     (case this_block result of
        None \<Rightarrow> (Returned True, s)
      | Some tb \<Rightarrow>
          (case head_branch result (block_num tb) (raise_revision (block_num tb) s) of
             (Some e, s2) \<Rightarrow> (Threw e, s2)
           | (None, s2) \<Rightarrow>
               (case in_session A result tb (s2\<lparr>db := start_undo_session (db s2)\<rparr>) of
                  (Some e, s3) \<Rightarrow> (Threw e, s3\<lparr>db := drop_session (db s3)\<rparr>)
                | (None, s3) \<Rightarrow>
                    if aborting s3 then (Returned False, s3\<lparr>db := drop_session (db s3)\<rparr>)
                    else (Returned True, finish_block s3))))"

section \<open>Construction, initialisation and the exporter's controls\<close>

definition empty_database :: database where
  "empty_database =
     \<lparr>revision = 0, undo_stack = [],
      tables = \<lparr>state_table = None, received_blocks_table = [],
                 contract_abi_objects_table = Map.empty\<rparr>,
      commits = []\<rparr>"

text \<open>
  The default member initialisers of \<^verbatim>\<open>receiver_plugin_impl\<close> (lines 177-219).
  \<^verbatim>\<open>exporter_max_unconfirmed\<close> has none; it is read only when
  \<^verbatim>\<open>exporter_will_ack\<close> is set, which sets it first.
\<close>

definition constructed :: receiver_plugin_impl where
  "constructed =
     \<lparr>db = empty_database, aborting = False,
      head = 0, head_id = 0, irreversible = 0, irreversible_id = 0,
      block_timestamp = 0, abi_types = Map.empty,
      contract_abi_ctxt = None, contract_abi_imported = {},
      blacklist_actions = Map.empty,
      exporter_will_ack = False, exporter_acked_block = 0, exporter_max_unconfirmed = 0,
      mytimer = None, pause_time_msec = 0, slowdown_requested = False,
      max_queue_size = 0, has_subscribers = (\<lambda>c. False), published = []\<rparr>"

text \<open>\<^verbatim>\<open>std::map::emplace\<close>: nothing is stored when the key is present.\<close>

definition emplace :: "'k \<Rightarrow> 'v \<Rightarrow> ('k \<rightharpoonup> 'v) \<Rightarrow> ('k \<rightharpoonup> 'v)" where
  "emplace k v m = (case m k of None \<Rightarrow> m(k \<mapsto> v) | Some w \<Rightarrow> m)"

text \<open>
  \<^verbatim>\<open>plugin_initialize\<close> (lines 857-892): the store that was opened, the queue limit
  of the options, and the two blacklist entries. \<open>N\<close> is the constructor
  \<^verbatim>\<open>abieos::name(const char*)\<close>, which is not among the sources.
\<close>

definition plugin_initialize ::
  "(string \<Rightarrow> name) \<Rightarrow> database \<Rightarrow> u32 \<Rightarrow> receiver_plugin_impl \<Rightarrow> receiver_plugin_impl" where
  "plugin_initialize N d queue_limit s =
     s\<lparr>db := d, max_queue_size := queue_limit,
       blacklist_actions :=
         emplace (N ''blocktwitter'') {N ''tweet''}
           (emplace (N ''eosio'') {N ''onblock''} (blacklist_actions s))\<rparr>"

text \<open>\<^verbatim>\<open>exporter_will_ack_blocks\<close> (lines 932-938; its assertions ask that
  acknowledgement is not yet enabled and that \<^verbatim>\<open>max_unconfirmed\<close> is positive),
  \<^verbatim>\<open>slowdown\<close> (lines 951-953) and \<^verbatim>\<open>abort_receiver\<close> (lines 964-969).\<close>

definition exporter_will_ack_blocks :: "u32 \<Rightarrow> receiver_plugin_impl \<Rightarrow> receiver_plugin_impl" where
  "exporter_will_ack_blocks max_unconfirmed s =
     s\<lparr>exporter_will_ack := True, exporter_max_unconfirmed := max_unconfirmed\<rparr>"

text \<open>\<^verbatim>\<open>ack_block\<close> (lines 940-949).\<close>

definition ack_block :: "u32 \<Rightarrow> receiver_plugin_impl \<Rightarrow> error + receiver_plugin_impl" where
  "ack_block bn s =
     (if bn < exporter_acked_block s then Inl Acked_below_acknowledged
      else Inr (s\<lparr>exporter_acked_block := bn\<rparr>))"

definition slowdown :: "receiver_plugin_impl \<Rightarrow> receiver_plugin_impl" where
  "slowdown s = s\<lparr>slowdown_requested := True\<rparr>"

definition abort_receiver :: "receiver_plugin_impl \<Rightarrow> receiver_plugin_impl" where
  "abort_receiver s = s\<lparr>aborting := True\<rparr>"

section \<open>Notions used to state the properties\<close>

text \<open>The elements a packed sequence yields before its first failed decoding.\<close>

fun decoded_prefix :: "(string + 'a) list \<Rightarrow> 'a list" where
  "decoded_prefix [] = []"
| "decoded_prefix (Inl msg # rest) = []"
| "decoded_prefix (Inr x # rest) = x # decoded_prefix rest"

text \<open>The events published between the state \<open>s\<close> and a later state \<open>s'\<close>.\<close>

definition new_events :: "receiver_plugin_impl \<Rightarrow> receiver_plugin_impl \<Rightarrow> event list" where
  "new_events s s' = drop (length (published s)) (published s')"

fun is_fork_event :: "event \<Rightarrow> bool" where
  "is_fork_event (Fork_event bn depth r) = True"
| "is_fork_event e = False"

text \<open>
  The events the block, delta and trace paths may publish under a blacklist: no fork
  event, and a transaction trace only when it is not blacklisted.
\<close>

fun payload_event :: "(name \<rightharpoonup> name set) \<Rightarrow> event \<Rightarrow> bool" where
  "payload_event bl (Fork_event bn depth r) = False"
| "payload_event bl (Transaction_trace_event bn ts tr) = (\<not> blacklisted bl tr)"
| "payload_event bl e = True"

text \<open>
  What the block, delta and trace paths leave alone: the positions, the flags, the
  store's revision, undo stack, commit record, state row and received blocks; and
  what they publish are events as above.
\<close>

definition payload_step :: "receiver_plugin_impl \<Rightarrow> receiver_plugin_impl \<Rightarrow> bool" where
  "payload_step s s' \<longleftrightarrow>
     head s' = head s \<and> head_id s' = head_id s \<and>
     irreversible s' = irreversible s \<and> irreversible_id s' = irreversible_id s \<and>
     aborting s' = aborting s \<and>
     exporter_will_ack s' = exporter_will_ack s \<and>
     exporter_acked_block s' = exporter_acked_block s \<and>
     has_subscribers s' = has_subscribers s \<and>
     abi_types s' = abi_types s \<and>
     blacklist_actions s' = blacklist_actions s \<and>
     revision (db s') = revision (db s) \<and>
     undo_stack (db s') = undo_stack (db s) \<and>
     commits (db s') = commits (db s) \<and>
     state_table (tables (db s')) = state_table (tables (db s)) \<and>
     received_blocks_table (tables (db s')) = received_blocks_table (tables (db s)) \<and>
     (\<exists>evs. published s' = published s @ evs \<and>
            list_all (payload_event (blacklist_actions s)) evs)"

text \<open>What the revision adjustment and the head branch leave alone.\<close>

definition branch_step :: "receiver_plugin_impl \<Rightarrow> receiver_plugin_impl \<Rightarrow> bool" where
  "branch_step s s' \<longleftrightarrow>
     head s' = head s \<and> head_id s' = head_id s \<and>
     irreversible s' = irreversible s \<and> irreversible_id s' = irreversible_id s \<and>
     aborting s' = aborting s \<and>
     exporter_will_ack s' = exporter_will_ack s \<and>
     exporter_acked_block s' = exporter_acked_block s \<and>
     has_subscribers s' = has_subscribers s \<and>
     abi_types s' = abi_types s \<and>
     blacklist_actions s' = blacklist_actions s \<and>
     commits (db s') = commits (db s)"

text \<open>
  The store after its \<open>k\<close> newest scopes are undone: the revision is \<open>k\<close> lower,
  the scopes have left the undo stack, and the tables are those that the \<open>k\<close>-th
  scope from the top saved when it was opened.
\<close>

definition undone :: "nat \<Rightarrow> database \<Rightarrow> database" where
  "undone k d =
     (if k = 0 then d
      else d\<lparr>revision := revision d - int k, undo_stack := drop k (undo_stack d),
             tables := snd (undo_stack d ! (k - 1))\<rparr>)"

text \<open>The pause durations that repeated doubling from 100 reaches, by position.\<close>

definition backoff :: "nat \<Rightarrow> u32" where
  "backoff k = (if k < 7 then 100 * 2 ^ k else 12800)"

text \<open>Acknowledgement is enabled with \<^verbatim>\<open>max_unconfirmed = 1\<close> and the head is
  not acknowledged.\<close>

definition ack_blocked :: "receiver_plugin_impl \<Rightarrow> bool" where
  "ack_blocked s \<longleftrightarrow>
     exporter_will_ack s \<and> exporter_max_unconfirmed s = 1 \<and> head s \<noteq> exporter_acked_block s"

text \<open>The state after a sequence of frames, whatever each call returns.\<close>

fun run :: "abieos \<Rightarrow> get_blocks_result_v0 list \<Rightarrow> receiver_plugin_impl \<Rightarrow> receiver_plugin_impl" where
  "run A [] s = s"
| "run A (f # fs) s = run A fs (snd (receive_result A f s))"

section \<open>Example values\<close>

text \<open>The 64-bit values of the four names of the default blacklist, a decoder
  library that accepts no ABI, and a frame without payloads for a block of a given
  number and id.\<close>

definition example_names :: "string \<Rightarrow> name" where
  "example_names str =
     (if str = ''eosio'' then 6138663577826885632
      else if str = ''onblock'' then 11875739475730497536
      else if str = ''blocktwitter'' then 4352879018212480368
      else if str = ''tweet'' then 14921741131141087232
      else 0)"

definition no_abieos :: abieos where
  "no_abieos =
     \<lparr>set_abi_bin_accepts = (\<lambda>abi. False), get_error = (\<lambda>abi. ''invalid abi''),
      abi_def_unreadable = (\<lambda>abi. None)\<rparr>"

definition block_frame :: "u32 \<Rightarrow> checksum256 \<Rightarrow> u32 \<Rightarrow> block_position option \<Rightarrow> get_blocks_result_v0" where
  "block_frame bn bid li prev =
     \<lparr>result_head = \<lparr>block_num = bn, block_id = bid\<rparr>,
      last_irreversible = \<lparr>block_num = li, block_id = 0\<rparr>,
      this_block = Some \<lparr>block_num = bn, block_id = bid\<rparr>,
      prev_block = prev,
      block = None, traces = None, deltas = None\<rparr>"

text \<open>
  \<open>started\<close>: the receiver after \<^verbatim>\<open>plugin_initialize\<close> and \<^verbatim>\<open>load_state\<close> on
  an empty store, with a subscriber on every channel.
\<close>

definition started :: receiver_plugin_impl where
  "started =
     (plugin_initialize example_names empty_database 10000 constructed)
       \<lparr>contract_abi_ctxt := Some Map.empty, has_subscribers := (\<lambda>c. True)\<rparr>"

definition onblock_trace :: transaction_trace where
  "onblock_trace =
     \<lparr>tt_id = 1,
      tt_traces = [\<lparr>at_account = 6138663577826885632, at_name = 11875739475730497536\<rparr>]\<rparr>"

definition bare_trace :: transaction_trace where
  "bare_trace = \<lparr>tt_id = 2, tt_traces = []\<rparr>"

definition heartbeat :: get_blocks_result_v0 where
  "heartbeat = (block_frame 7 1 5 None)\<lparr>this_block := None\<rparr>"

text \<open>Blocks 1 to 4 in sequence, the last irreversible block moving from 0 to 2 and
  3; a second block 3 and a second block 1 on other branches; and a block 2 that does
  not continue block 1.\<close>

definition frame1 :: get_blocks_result_v0 where
  "frame1 = block_frame 1 11 0 None"

definition frame2 :: get_blocks_result_v0 where
  "frame2 = block_frame 2 22 0 (Some \<lparr>block_num = 1, block_id = 11\<rparr>)"

definition frame3 :: get_blocks_result_v0 where
  "frame3 = block_frame 3 33 2 (Some \<lparr>block_num = 2, block_id = 22\<rparr>)"

definition frame4 :: get_blocks_result_v0 where
  "frame4 = block_frame 4 44 3 (Some \<lparr>block_num = 3, block_id = 33\<rparr>)"

definition fork3 :: get_blocks_result_v0 where
  "fork3 = block_frame 3 34 2 (Some \<lparr>block_num = 2, block_id = 22\<rparr>)"

definition fork1 :: get_blocks_result_v0 where
  "fork1 = block_frame 1 12 0 None"

definition bad_frame2 :: get_blocks_result_v0 where
  "bad_frame2 = block_frame 2 22 0 (Some \<lparr>block_num = 1, block_id = 99\<rparr>)"

text \<open>Block 3 received while the last irreversible block is 1, and then a second
  block 2 on another branch; block 2 of the first branch sent again once it is
  irreversible.\<close>

definition head3 :: get_blocks_result_v0 where
  "head3 = block_frame 3 33 1 (Some \<lparr>block_num = 2, block_id = 22\<rparr>)"

definition fork2 :: get_blocks_result_v0 where
  "fork2 = block_frame 2 23 1 (Some \<lparr>block_num = 1, block_id = 11\<rparr>)"

definition resent2 :: get_blocks_result_v0 where
  "resent2 = block_frame 2 22 2 (Some \<lparr>block_num = 1, block_id = 11\<rparr>)"

text \<open>The frame of block 1 with two transaction traces: one whose first action is
  \<^verbatim>\<open>eosio::onblock\<close>, one without actions.\<close>

definition traced_frame :: get_blocks_result_v0 where
  "traced_frame = frame1\<lparr>traces := Some (Items [Inr onblock_trace, Inr bare_trace])\<rparr>"

definition after1 :: receiver_plugin_impl where
  "after1 = run no_abieos [frame1] started"

definition after2 :: receiver_plugin_impl where
  "after2 = run no_abieos [frame1, frame2] started"

definition after3 :: receiver_plugin_impl where
  "after3 = run no_abieos [frame1, frame2, frame3] started"

text \<open>\<open>at_head3\<close>: blocks 1, 2 and 3 are received and block 1 is irreversible.
  \<open>late\<close>: the receiver's first block is block 2.\<close>

definition at_head3 :: receiver_plugin_impl where
  "at_head3 = run no_abieos [frame1, frame2, head3] started"

definition late :: receiver_plugin_impl where
  "late = run no_abieos [frame2] started"

text \<open>\<open>acking\<close>: an exporter that acknowledges, with \<^verbatim>\<open>max_unconfirmed = 1\<close>, has
  received block 1 and acknowledged nothing. \<open>acknowledged\<close>: with
  \<^verbatim>\<open>max_unconfirmed = 5\<close>, blocks 1 and 2 are received and block 1 is
  acknowledged.\<close>

definition acking :: receiver_plugin_impl where
  "acking = run no_abieos [frame1] (exporter_will_ack_blocks 1 started)"

definition acknowledged :: receiver_plugin_impl where
  "acknowledged =
     (case ack_block 1 (run no_abieos [frame1, frame2] (exporter_will_ack_blocks 5 started)) of
        Inl e \<Rightarrow> started | Inr s \<Rightarrow> s)"

text \<open>The equations that evaluate \<^verbatim>\<open>receive_result\<close> on the example values.\<close>

lemmas eval_defs = receive_result_def raise_revision_def set_revision_def head_branch_def
  handle_fork_def start_undo_session_def in_session_def and_then_def add_received_block_def
  truncate_old_blocks.simps set_received_blocks_def set_positions_def receive_payloads_def
  finish_block_def save_state_def commit_rev_def commit_def drop_session_def undo_def
  rollback.simps init_contract_abi_ctxt_def publish_def block_frame_def
  started_def plugin_initialize_def constructed_def empty_database_def Let_def
  frame1_def frame2_def frame3_def frame4_def fork3_def fork1_def bad_frame2_def
  after1_def after2_def after3_def acking_def acknowledged_def
  head3_def fork2_def resent2_def at_head3_def late_def
  exporter_will_ack_blocks_def ack_block_def new_events_def
  word_le_nat_alt word_less_nat_alt

section \<open>Backpressure\<close>

lemma check_pause_paused:
  assumes "must_pause q s"
  shows "check_pause q s =
    (False, s\<lparr>mytimer := Some (next_pause (pause_time_msec s)),
              pause_time_msec := next_pause (pause_time_msec s),
              slowdown_requested := False,
              published := published s @
                (if 2000 \<le> next_pause (pause_time_msec s)
                 then [Receiver_pause_event (head s) (exporter_acked_block s)] else [])\<rparr>)"
  using assms by (simp add: check_pause_def publish_def Let_def)

lemma small_cases: "k < 7 \<Longrightarrow> k = 0 \<or> k = 1 \<or> k = 2 \<or> k = 3 \<or> k = 4 \<or> k = 5 \<or> k = (6::nat)"
  by arith

lemma next_pause_backoff: "next_pause (backoff k) = backoff (Suc k)"
proof (cases "k < 7")
  case True
  from small_cases [OF this] show ?thesis
    by (auto simp: next_pause_def backoff_def)
next
  case False
  then show ?thesis by (simp add: next_pause_def backoff_def)
qed

lemma next_pause_0: "next_pause 0 = backoff 0"
  by (simp add: next_pause_def backoff_def)

lemma backoff_ge_2000: "2000 \<le> backoff k \<longleftrightarrow> 5 \<le> k"
proof (cases "k < 7")
  case True
  from small_cases [OF this] show ?thesis
    by (auto simp: backoff_def)
next
  case False
  then show ?thesis by (simp add: backoff_def)
qed

lemma ack_blocked_must_pause: "ack_blocked s \<Longrightarrow> must_pause q s"
  apply (simp add: ack_blocked_def must_pause_def)
  by (metis word_le_sub1 diff_0_right right_minus_eq word_less_1 linorder_not_less)

lemma pause_loop_blocked:
  assumes "ack_blocked s" and "next_pause (pause_time_msec s) = backoff j"
  shows "fst (pause_loop n q s) = map backoff [j..<j + n] \<and>
         published (snd (pause_loop n q s)) =
           published s @
             replicate ((j + n) - max j 5) (Receiver_pause_event (head s) (exporter_acked_block s))"
  using assms
proof (induction n arbitrary: s j)
  case 0
  show ?case by simp
next
  case (Suc n)
  define s1 where "s1 = s\<lparr>mytimer := Some (backoff j),
              pause_time_msec := backoff j,
              slowdown_requested := False,
              published := published s @
                (if 5 \<le> j then [Receiver_pause_event (head s) (exporter_acked_block s)] else [])\<rparr>"
  have cp: "check_pause q s = (False, s1)"
    using check_pause_paused [OF ack_blocked_must_pause [OF Suc.prems(1)], of q] Suc.prems(2)
    by (simp add: s1_def backoff_ge_2000)
  have b1: "ack_blocked s1"
    using Suc.prems(1) by (simp add: ack_blocked_def s1_def)
  have n1: "next_pause (pause_time_msec s1) = backoff (Suc j)"
    by (simp add: s1_def next_pause_backoff)
  from Suc.IH [OF b1 n1]
  have ih1: "fst (pause_loop n q s1) = map backoff [Suc j..<Suc j + n]"
    and ih2: "published (snd (pause_loop n q s1)) =
           published s1 @
             replicate ((Suc j + n) - max (Suc j) 5)
               (Receiver_pause_event (head s1) (exporter_acked_block s1))"
    by simp_all
  have unfold: "pause_loop (Suc n) q s =
      (pause_time_msec s1 # fst (pause_loop n q s1), snd (pause_loop n q s1))"
    using cp by (simp add: continue_read_def split: prod.splits)
  have l: "backoff j # map backoff [Suc j..<Suc j + n] = map backoff [j..<j + Suc n]"
    by (simp add: upt_rec [of j])
  have c: "(if 5 \<le> j then [e] else []) @ replicate ((Suc j + n) - max (Suc j) 5) e =
             replicate ((j + Suc n) - max j 5) e" for e :: event
  proof (cases "5 \<le> j")
    case True
    then have "max (Suc j) 5 = Suc j" "max j 5 = j" by simp_all
    with True show ?thesis by (simp add: replicate_Suc [symmetric] del: replicate_Suc)
  next
    case False
    then have "max (Suc j) 5 = 5" "max j 5 = 5" by simp_all
    with False show ?thesis by simp
  qed
  show ?case
    using unfold ih1 ih2 l c [of "Receiver_pause_event (head s) (exporter_acked_block s)"]
    by (simp add: s1_def)
qed

lemma acking_fields:
  "exporter_will_ack acking" "exporter_max_unconfirmed acking = 1" "head acking = 1"
  "exporter_acked_block acking = 0" "pause_time_msec acking = 0" "published acking = []"
  by (simp_all add: eval_defs)

text \<open>
  C1, as the code has it. When \<^verbatim>\<open>check_pause\<close> decides to pause it returns false,
  clears \<^verbatim>\<open>slowdown_requested\<close>, sets \<^verbatim>\<open>pause_time_msec\<close> to 100 if it was 0, to
  its double if it was below 8000, and leaves it as it is otherwise; it publishes one
  \<^verbatim>\<open>receiver_pause\<close> exactly when the new duration is at least 2000, arms the timer
  with the new duration and changes nothing else. With acknowledgement enabled,
  \<^verbatim>\<open>max_unconfirmed = 1\<close>, an unacknowledged head and \<^verbatim>\<open>pause_time_msec = 0\<close>,
  \<open>n\<close> consecutive passes through \<^verbatim>\<open>continue_read\<close> all pause, with the durations
  100, 200, 400, 800, 1600, 3200, 6400, 12800, 12800, ..., and publish a pause event
  on every pass from the sixth (3200 ms) on. The cap is 12800, not 8000: the
  doubling is guarded by \<^verbatim>\<open>pause_time_msec < 8000\<close>, which 6400 passes.
\<close>

theorem check_pause_backoff:
  "(must_pause q s \<longrightarrow>
      check_pause q s =
        (False, s\<lparr>mytimer := Some (next_pause (pause_time_msec s)),
                  pause_time_msec := next_pause (pause_time_msec s),
                  slowdown_requested := False,
                  published := published s @
                    (if 2000 \<le> next_pause (pause_time_msec s)
                     then [Receiver_pause_event (head s) (exporter_acked_block s)] else [])\<rparr>) \<and>
      next_pause (pause_time_msec s) =
        (if pause_time_msec s = 0 then 100
         else if pause_time_msec s < 8000 then pause_time_msec s * 2
         else pause_time_msec s)) \<and>
   (exporter_will_ack s \<and> exporter_max_unconfirmed s = 1 \<and>
    head s \<noteq> exporter_acked_block s \<and> pause_time_msec s = 0 \<longrightarrow>
      fst (pause_loop n q s) = map (\<lambda>k. if k < 7 then 100 * 2 ^ k else 12800) [0..<n] \<and>
      new_events s (snd (pause_loop n q s)) =
        replicate (n - 5) (Receiver_pause_event (head s) (exporter_acked_block s)))"
proof -
  have "fst (pause_loop n q s) = map (\<lambda>k. if k < 7 then 100 * 2 ^ k else 12800) [0..<n] \<and>
      new_events s (snd (pause_loop n q s)) =
        replicate (n - 5) (Receiver_pause_event (head s) (exporter_acked_block s))"
    if "exporter_will_ack s" "exporter_max_unconfirmed s = 1"
      "head s \<noteq> exporter_acked_block s" "pause_time_msec s = 0"
  proof -
    from that have b: "ack_blocked s" by (simp add: ack_blocked_def)
    from that have n: "next_pause (pause_time_msec s) = backoff 0" by (simp add: next_pause_0)
    have m: "map backoff [0..<n] = map (\<lambda>k. if k < 7 then 100 * 2 ^ k else 12800) [0..<n]"
      by (simp add: backoff_def)
    from pause_loop_blocked [OF b n, of n q] m show ?thesis
      by (simp add: new_events_def)
  qed
  then show ?thesis
    by (auto simp: check_pause_paused next_pause_def)
qed

theorem check_pause_backoff_witness:
  "must_pause 0 acking \<and>
   fst (check_pause 0 acking) = False \<and>
   pause_time_msec (snd (check_pause 0 acking)) = 100 \<and>
   published (snd (check_pause 0 acking)) = [] \<and>
   fst (pause_loop 10 0 acking) =
     [100, 200, 400, 800, 1600, 3200, 6400, 12800, 12800, 12800] \<and>
   new_events acking (snd (pause_loop 10 0 acking)) = replicate 5 (Receiver_pause_event 1 0)"
proof -
  have m: "must_pause 0 acking"
    by (simp add: must_pause_def acking_fields)
  have u: "[0..<10] = [0, 1, 2, 3, 4, 5, 6, 7, 8, 9]"
    by (simp add: upt_rec)
  from check_pause_backoff [of 0 acking 10] m show ?thesis
    by (simp add: acking_fields next_pause_def u)
qed

text \<open>
  C1 as stated fails: from 6400 the pause becomes 12800, which is not
  \<open>min (6400 * 2) 8000\<close>, and the ninth duration of the sequence is 12800, not 8000.
\<close>

theorem check_pause_cap_counterexample:
  "must_pause 0 (acking\<lparr>pause_time_msec := 6400\<rparr>) \<and>
   pause_time_msec (acking\<lparr>pause_time_msec := 6400\<rparr>) \<noteq> 0 \<and>
   pause_time_msec (snd (check_pause 0 (acking\<lparr>pause_time_msec := 6400\<rparr>))) = 12800 \<and>
   pause_time_msec (snd (check_pause 0 (acking\<lparr>pause_time_msec := 6400\<rparr>))) \<noteq>
     min (pause_time_msec (acking\<lparr>pause_time_msec := 6400\<rparr>) * 2) 8000 \<and>
   fst (pause_loop 9 0 acking) \<noteq> [100, 200, 400, 800, 1600, 3200, 6400, 8000, 8000]"
proof -
  have m: "must_pause 0 (acking\<lparr>pause_time_msec := 6400\<rparr>)"
    by (simp add: must_pause_def acking_fields)
  have c: "pause_time_msec (snd (check_pause 0 (acking\<lparr>pause_time_msec := 6400\<rparr>))) = 12800"
    using m by (simp add: check_pause_def Let_def publish_def next_pause_def word_less_nat_alt)
  have b: "ack_blocked acking"
    by (simp add: ack_blocked_def acking_fields)
  have n: "next_pause (pause_time_msec acking) = backoff 0"
    by (simp add: acking_fields next_pause_0)
  have u: "[0..<9] = [0, 1, 2, 3, 4, 5, 6, 7, 8]"
    by (simp add: upt_rec)
  have l: "fst (pause_loop 9 0 acking) = [100, 200, 400, 800, 1600, 3200, 6400, 12800, 12800]"
    using pause_loop_blocked [OF b n, of 9 0] by (simp add: u backoff_def)
  show ?thesis
    using m c l by (simp add: word_le_nat_alt)
qed

section \<open>The trace path\<close>

lemma traces_loop_published:
  "published (snd (traces_loop xs s)) =
     published s @
       map (Transaction_trace_event (head s) (block_timestamp s))
         (filter (\<lambda>tr. \<not> blacklisted (blacklist_actions s) tr) (decoded_prefix xs))"
proof (induction xs s rule: traces_loop.induct)
  case (1 s)
  show ?case by simp
next
  case (2 msg rest s)
  show ?case by simp
next
  case (3 tr rest s)
  then show ?case by (simp add: publish_def)
qed

lemma receive_traces_no_subscribers:
  "\<not> has_subscribers s Transaction_traces \<Longrightarrow> new_events s (snd (receive_traces buf s)) = []"
  by (simp add: receive_traces_def new_events_def)

lemma receive_traces_bad_input:
  "new_events s (snd (receive_traces (Bad_input msg) s)) = []"
  by (simp add: receive_traces_def new_events_def)

lemma receive_traces_items:
  "has_subscribers s Transaction_traces \<Longrightarrow>
   new_events s (snd (receive_traces (Items xs) s)) =
     map (Transaction_trace_event (head s) (block_timestamp s))
       (filter (\<lambda>tr. \<not> blacklisted (blacklist_actions s) tr) (decoded_prefix xs))"
  by (simp add: receive_traces_def new_events_def traces_loop_published)

text \<open>
  C10. A decoded transaction trace without action traces is not blacklisted, and when
  the \<^verbatim>\<open>transaction_traces\<close> channel has subscribers it is published, with the
  head and the block timestamp of the receiver, wherever it stands among the decoded
  traces of the buffer.
\<close>

theorem trace_without_actions_published:
  "tt_traces tr = [] \<Longrightarrow> has_subscribers s Transaction_traces \<Longrightarrow>
   \<not> blacklisted (blacklist_actions s) tr \<and>
   Transaction_trace_event (head s) (block_timestamp s) tr
     \<in> set (new_events s (snd (receive_traces (Items (map Inr pre @ Inr tr # post)) s)))"
proof -
  assume e: "tt_traces tr = []" and sub: "has_subscribers s Transaction_traces"
  have nb: "\<not> blacklisted (blacklist_actions s) tr"
    using e by (simp add: blacklisted_def)
  have "tr \<in> set (decoded_prefix (map Inr pre @ Inr tr # post))"
    by (induction pre) simp_all
  with nb sub show ?thesis
    by (simp add: receive_traces_items)
qed

theorem trace_without_actions_published_witness:
  "tt_traces bare_trace = [] \<and> has_subscribers started Transaction_traces \<and>
   \<not> blacklisted (blacklist_actions started) bare_trace \<and>
   Transaction_trace_event 0 0 bare_trace
     \<in> set (new_events started
              (snd (receive_traces (Items [Inr onblock_trace, Inr bare_trace]) started)))"
  using trace_without_actions_published [of bare_trace started "[onblock_trace]" "[]"]
  by (simp add: bare_trace_def started_def plugin_initialize_def constructed_def)

section \<open>The ABI registry: a failed installation\<close>

text \<open>
  C7. When \<^verbatim>\<open>abieos_set_abi_bin\<close> fails in \<^verbatim>\<open>save_contract_abi\<close> (on the context
  as it is after the rebuild that an already imported account causes), the function
  publishes exactly one event, the \<^verbatim>\<open>abi_error\<close> for the account with the library's
  error text, and the store is the same as before: no \<^verbatim>\<open>contract_abi_object\<close> is
  created, modified or removed.
\<close>

theorem save_contract_abi_install_failure:
  assumes "abieos_set_abi_bin A
             (contract_abi_ctxt
                (if account \<in> contract_abi_imported s then init_contract_abi_ctxt s else s))
             account abi = None"
  shows "new_events s (save_contract_abi A account abi s) =
           [Abi_error_event (head s) (block_timestamp s) account (get_error A abi)] \<and>
         db (save_contract_abi A account abi s) = db s"
  using assms
  by (simp add: save_contract_abi_def Let_def new_events_def publish_def
      init_contract_abi_ctxt_def split: option.splits if_splits)

theorem save_contract_abi_install_failure_witness:
  "abieos_set_abi_bin no_abieos (contract_abi_ctxt started) 3607400893709811712 [1, 2, 3] = None \<and>
   new_events started (save_contract_abi no_abieos 3607400893709811712 [1, 2, 3] started) =
     [Abi_error_event 0 0 3607400893709811712 ''invalid abi''] \<and>
   db (save_contract_abi no_abieos 3607400893709811712 [1, 2, 3] started) = db started"
proof -
  have i: "contract_abi_imported started = {}"
    by (simp add: eval_defs)
  have f: "abieos_set_abi_bin no_abieos (contract_abi_ctxt started) 3607400893709811712 [1, 2, 3] = None"
    by (simp add: abieos_set_abi_bin_def no_abieos_def eval_defs)
  from save_contract_abi_install_failure [of no_abieos 3607400893709811712 started "[1, 2, 3]"] i f
  show ?thesis
    by (simp add: no_abieos_def started_def plugin_initialize_def constructed_def)
qed

section \<open>What the payload paths preserve\<close>

lemma payload_step_refl: "payload_step s s"
  by (simp add: payload_step_def)

lemma payload_step_trans: "payload_step s s1 \<Longrightarrow> payload_step s1 s2 \<Longrightarrow> payload_step s s2"
  by (auto simp: payload_step_def)

lemma payload_step_publish:
  "payload_event (blacklist_actions s) e \<Longrightarrow> payload_step s (publish e s)"
  by (simp add: payload_step_def publish_def)

lemma payload_event_no_fork:
  "list_all (payload_event bl) evs \<Longrightarrow> list_all (\<lambda>e. \<not> is_fork_event e) evs"
proof (induction evs)
  case Nil
  show ?case by simp
next
  case (Cons e evs)
  then show ?case by (cases e) simp_all
qed

lemma payload_step_init: "payload_step s (init_contract_abi_ctxt s)"
  by (simp add: payload_step_def init_contract_abi_ctxt_def split: option.splits)

lemma payload_step_clear: "payload_step s (clear_contract_abi account s)"
  by (simp add: payload_step_def clear_contract_abi_def init_contract_abi_ctxt_def publish_def
      remove_contract_abi_def Let_def split: option.splits)

lemma payload_step_save: "payload_step s (save_contract_abi A account abi s)"
  by (simp add: payload_step_def save_contract_abi_def init_contract_abi_ctxt_def publish_def
      put_contract_abi_def Let_def split: option.splits)

lemma payload_step_ready: "payload_step s (snd (get_contract_abi_ready A account s))"
  by (simp add: payload_step_def get_contract_abi_ready_def split: option.splits)

lemma payload_step_receive_block: "payload_step s (snd (receive_block bin s))"
  by (simp add: payload_step_def receive_block_def publish_def split: sum.splits)

lemma payload_step_account_rows: "payload_step s (snd (account_rows A rs s))"
proof (induction rs arbitrary: s)
  case Nil
  show ?case by (simp add: payload_step_refl)
next
  case (Cons r rs)
  show ?case
  proof (cases "present r")
    case False
    then show ?thesis using Cons.IH by simp
  next
    case True
    show ?thesis
    proof (cases "row_data r")
      case (Account_row acc)
      define s' where "s' = (if acc_abi acc = [] then clear_contract_abi (acc_name acc) s
                else save_contract_abi A (acc_name acc) (acc_abi acc) s)"
      have "payload_step s s'"
        by (simp add: s'_def payload_step_clear payload_step_save)
      then have "payload_step s (snd (account_rows A rs s'))"
        by (rule payload_step_trans) (rule Cons.IH)
      with Account_row True show ?thesis
        by (simp add: s'_def)
    next
      case (Contract_row kvo)
      with True show ?thesis by (simp add: payload_step_refl)
    next
      case (Opaque_row bs)
      with True show ?thesis by (simp add: payload_step_refl)
    qed
  qed
qed

lemma payload_step_contract_rows: "payload_step s (snd (contract_rows A rs s))"
proof (induction rs arbitrary: s)
  case Nil
  show ?case by (simp add: payload_step_refl)
next
  case (Cons r rs)
  show ?case
  proof (cases "row_data r")
    case (Contract_row kvo)
    obtain b s1 where g: "get_contract_abi_ready A (kvo_code kvo) s = (b, s1)"
      by (cases "get_contract_abi_ready A (kvo_code kvo) s")
    have s1: "payload_step s s1"
      using payload_step_ready [of s A "kvo_code kvo"] g by simp
    have step: "payload_step s (snd (contract_rows A rs (publish e s1)))"
      if "payload_event (blacklist_actions s1) e" for e
    proof -
      have "payload_step s1 (publish e s1)"
        using that by (rule payload_step_publish)
      with s1 have "payload_step s (publish e s1)"
        by (rule payload_step_trans)
      then show ?thesis
        by (rule payload_step_trans) (rule Cons.IH)
    qed
    show ?thesis
    proof (cases b)
      case True
      with Contract_row g show ?thesis
        by (simp add: step)
    next
      case False
      with Contract_row g show ?thesis
        by (simp add: step)
    qed
  next
    case (Account_row acc)
    then show ?thesis by (simp add: payload_step_refl)
  next
    case (Opaque_row bs)
    then show ?thesis by (simp add: payload_step_refl)
  qed
qed

lemma payload_step_and_then:
  assumes "payload_step s (snd r)" and "\<And>s1. payload_step s1 (snd (f s1))"
  shows "payload_step s (snd (and_then r f))"
proof (cases r)
  case (Pair e s1)
  show ?thesis
  proof (cases e)
    case None
    with Pair assms(1) have "payload_step s s1" by simp
    then have "payload_step s (snd (f s1))"
      by (rule payload_step_trans) (rule assms(2))
    with Pair None show ?thesis by (simp add: and_then_def)
  next
    case (Some err)
    with Pair assms(1) show ?thesis by (simp add: and_then_def)
  qed
qed

lemma payload_step_receive_delta: "payload_step s (snd (receive_delta A td s))"
proof (cases "abi_types s (td_name td)")
  case None
  then show ?thesis by (simp add: receive_delta_def payload_step_refl)
next
  case (Some ty)
  show ?thesis
  proof (cases "filled_variant ty \<and> field_count ty = 1 \<and> first_field_struct ty")
    case False
    with Some show ?thesis by (auto simp: receive_delta_def payload_step_refl)
  next
    case True
    show ?thesis
    proof (cases "check_rows ty (td_rows td)")
      case (Some e)
      with \<open>abi_types s (td_name td) = Some ty\<close> True show ?thesis
        by (simp add: receive_delta_def payload_step_refl)
    next
      case None
      have rows: "payload_step s (snd (if td_name td = ''account'' then account_rows A (td_rows td) s
                    else if td_name td = ''contract_row'' \<and>
                            (has_subscribers s Table_row_updates \<or> has_subscribers s Abi_errors)
                         then contract_rows A (td_rows td) s
                    else (None, s)))"
        by (simp add: payload_step_account_rows payload_step_contract_rows payload_step_refl)
      have "payload_step s (snd (and_then
                   (if td_name td = ''account'' then account_rows A (td_rows td) s
                    else if td_name td = ''contract_row'' \<and>
                            (has_subscribers s Table_row_updates \<or> has_subscribers s Abi_errors)
                         then contract_rows A (td_rows td) s
                    else (None, s))
                   (\<lambda>s1. (None, publish (Block_table_delta_event (block_timestamp s) td) s1))))"
        using rows by (rule payload_step_and_then) (simp add: payload_step_publish)
      with None \<open>abi_types s (td_name td) = Some ty\<close> True show ?thesis
        by (simp add: receive_delta_def)
    qed
  qed
qed

lemma payload_step_deltas_loop: "payload_step s (snd (deltas_loop A xs s))"
proof (induction A xs s rule: deltas_loop.induct)
  case (1 A s)
  show ?case by (simp add: payload_step_refl)
next
  case (2 A msg rest s)
  show ?case by (simp add: payload_step_refl)
next
  case (3 A td rest s)
  show ?case
    by (simp add: payload_step_and_then payload_step_receive_delta "3.IH")
qed

lemma payload_step_receive_deltas: "payload_step s (snd (receive_deltas A buf s))"
  by (cases buf) (simp_all add: receive_deltas_def payload_step_refl payload_step_deltas_loop)

lemma payload_step_traces_loop: "payload_step s (snd (traces_loop xs s))"
proof (induction xs s rule: traces_loop.induct)
  case (1 s)
  show ?case by (simp add: payload_step_refl)
next
  case (2 msg rest s)
  show ?case by (simp add: payload_step_refl)
next
  case (3 tr rest s)
  have "payload_step s (if \<not> blacklisted (blacklist_actions s) tr
        then publish (Transaction_trace_event (head s) (block_timestamp s) tr) s else s)"
    by (simp add: payload_step_publish payload_step_refl)
  then have "payload_step s (snd (traces_loop rest (if \<not> blacklisted (blacklist_actions s) tr
        then publish (Transaction_trace_event (head s) (block_timestamp s) tr) s else s)))"
    by (rule payload_step_trans) (rule "3.IH")
  then show ?case by simp
qed

lemma payload_step_receive_traces: "payload_step s (snd (receive_traces buf s))"
  by (cases buf) (simp_all add: receive_traces_def payload_step_refl payload_step_traces_loop)

lemma payload_step_receive_payloads: "payload_step s (snd (receive_payloads A result s))"
  unfolding receive_payloads_def
  by (intro payload_step_and_then)
     (auto split: option.splits
        simp: payload_step_refl payload_step_receive_block payload_step_receive_deltas
          payload_step_receive_traces)

lemma payloads_fields:
  assumes "receive_payloads A result s = (r, s3)"
  shows "payload_step s s3"
  using payload_step_receive_payloads [of s A result] assms by simp

section \<open>The rollback loop and the head branch\<close>

lemma rollback_commits: "commits (snd (rollback b d)) = commits d"
proof (induction b d rule: rollback.induct)
  case (1 b d)
  show ?case
  proof (cases "b \<le> revision d")
    case False
    then show ?thesis by (simp add: rollback.simps)
  next
    case True
    show ?thesis
    proof (cases "undo d")
      case (Inl e)
      with True show ?thesis by (simp add: rollback.simps)
    next
      case (Inr d')
      then have "commits d' = commits d"
        by (auto simp: undo_def split: list.splits)
      with "1.IH" [OF True Inr] True Inr show ?thesis
        by (simp add: rollback.simps)
    qed
  qed
qed


lemma branch_step_raise_revision: "branch_step s (raise_revision bn s)"
  by (simp add: branch_step_def raise_revision_def set_revision_def)

lemma branch_step_handle_fork: "branch_step s (snd (handle_fork bn s))"
proof -
  obtain r d where rb: "rollback (uint bn) (db (init_contract_abi_ctxt s)) = (r, d)"
    by (cases "rollback (uint bn) (db (init_contract_abi_ctxt s))")
  have c: "commits d = commits (db s)"
    using rollback_commits [of "uint bn" "db (init_contract_abi_ctxt s)"] rb
    by (simp add: init_contract_abi_ctxt_def split: option.splits)
  show ?thesis
    using rb c
    by (cases r)
       (simp_all add: handle_fork_def branch_step_def Let_def publish_def
          init_contract_abi_ctxt_def split: option.splits)
qed

lemma branch_step_head_branch: "branch_step s (snd (head_branch result bn s))"
  by (simp add: head_branch_def branch_step_handle_fork)
     (simp add: branch_step_def)


section \<open>The received blocks\<close>

lemma idx_begin_least: "idx_begin rs = Some m \<Longrightarrow> e \<in> set rs \<Longrightarrow> fst m \<le> fst e"
proof (induction rs arbitrary: m)
  case Nil
  then show ?case by simp
next
  case (Cons x xs)
  show ?case
  proof (cases "idx_begin xs")
    case None
    then have "xs = []" by (cases xs) (auto split: option.splits if_splits)
    with Cons.prems None show ?thesis by simp
  next
    case (Some m')
    show ?thesis
    proof (cases "fst m' < fst x")
      case True
      with Some Cons.prems(1) have m: "m = m'" by simp
      show ?thesis
      proof (cases "e = x")
        case True
        with \<open>fst m' < fst x\<close> m show ?thesis by simp
      next
        case False
        with Cons.prems(2) have "e \<in> set xs" by simp
        with Cons.IH [OF Some] m show ?thesis by simp
      qed
    next
      case False
      with Some Cons.prems(1) have m: "m = x" by simp
      show ?thesis
      proof (cases "e = x")
        case True
        with m show ?thesis by simp
      next
        case ne: False
        with Cons.prems(2) have "e \<in> set xs" by simp
        with Cons.IH [OF Some] have "fst m' \<le> fst e" .
        with False m show ?thesis by simp
      qed
    qed
  qed
qed

lemma truncate_old_blocks_bound:
  "truncate_old_blocks irr rs = Some rs' \<Longrightarrow> e \<in> set rs' \<Longrightarrow> irr \<le> fst e"
proof (induction irr rs rule: truncate_old_blocks.induct)
  case (1 irr rs)
  from "1.prems"(1) obtain m where m: "idx_begin rs = Some m"
    by (cases "idx_begin rs") (simp_all add: truncate_old_blocks.simps)
  show ?case
  proof (cases "fst m < irr")
    case True
    with m "1.prems"(1) have "truncate_old_blocks irr (remove1 m rs) = Some rs'"
      by (simp add: truncate_old_blocks.simps)
    from "1.IH" [OF m True this "1.prems"(2)] show ?thesis .
  next
    case False
    with m "1.prems"(1) have "rs' = rs"
      by (simp add: truncate_old_blocks.simps)
    with "1.prems"(2) have "fst m \<le> fst e"
      using idx_begin_least [OF m] by simp
    with False show ?thesis by simp
  qed
qed

lemma truncate_old_blocks_keeps:
  "truncate_old_blocks irr rs = Some rs' \<Longrightarrow> e \<in> set rs \<Longrightarrow> irr \<le> fst e \<Longrightarrow> e \<in> set rs'"
proof (induction irr rs rule: truncate_old_blocks.induct)
  case (1 irr rs)
  from "1.prems"(1) obtain m where m: "idx_begin rs = Some m"
    by (cases "idx_begin rs") (simp_all add: truncate_old_blocks.simps)
  show ?case
  proof (cases "fst m < irr")
    case True
    with m "1.prems"(1) have t: "truncate_old_blocks irr (remove1 m rs) = Some rs'"
      by (simp add: truncate_old_blocks.simps)
    from True "1.prems"(3) have "e \<noteq> m" by auto
    with "1.prems"(2) have "e \<in> set (remove1 m rs)" by simp
    from "1.IH" [OF m True t this "1.prems"(3)] show ?thesis .
  next
    case False
    with m "1.prems"(1) have "rs' = rs"
      by (simp add: truncate_old_blocks.simps)
    with "1.prems"(2) show ?thesis by simp
  qed
qed

lemma idx_begin_None: "idx_begin rs = None \<longleftrightarrow> rs = []"
  by (cases rs) (simp_all split: option.splits)

text \<open>The truncation loop of lines 478-482 never reads \<^verbatim>\<open>end()\<close>: the block
  just created is above the bound and stays in the index.\<close>

lemma truncate_old_blocks_defined:
  "e \<in> set rs \<Longrightarrow> irr \<le> fst e \<Longrightarrow> truncate_old_blocks irr rs \<noteq> None"
proof (induction irr rs rule: truncate_old_blocks.induct)
  case (1 irr rs)
  from "1.prems"(1) have "idx_begin rs \<noteq> None"
    by (auto simp: idx_begin_None)
  then obtain m where m: "idx_begin rs = Some m"
    by auto
  show ?case
  proof (cases "fst m < irr")
    case True
    with "1.prems"(2) have "e \<noteq> m" by auto
    with "1.prems"(1) have "e \<in> set (remove1 m rs)" by simp
    from "1.IH" [OF m True this "1.prems"(2)] m True show ?thesis
      by (simp add: truncate_old_blocks.simps)
  next
    case False
    with m show ?thesis
      by (simp add: truncate_old_blocks.simps)
  qed
qed

lemma add_received_block_reads_no_end:
  "fst (add_received_block bn bid s) \<noteq> Some End_dereferenced"
proof (cases "irreversible s < bn")
  case False
  then show ?thesis by (simp add: add_received_block_def)
next
  case True
  then have "irreversible s \<le> fst (bn, bid)" by simp
  with truncate_old_blocks_defined
    [of "(bn, bid)" "received_blocks_table (tables (db s)) @ [(bn, bid)]" "irreversible s"]
  have "truncate_old_blocks (irreversible s)
          (received_blocks_table (tables (db s)) @ [(bn, bid)]) \<noteq> None"
    by simp
  then show ?thesis
    by (auto simp: add_received_block_def split: option.splits)
qed

lemma add_received_block_ok:
  assumes "add_received_block bn bid s = (None, s1)"
  shows "(\<not> irreversible s < bn \<and> s1 = s) \<or>
         (irreversible s < bn \<and>
          (\<exists>rs. truncate_old_blocks (irreversible s)
                   (received_blocks_table (tables (db s)) @ [(bn, bid)]) = Some rs \<and>
                s1 = s\<lparr>db := set_received_blocks rs (db s)\<rparr>))"
  using assms
  by (auto simp: add_received_block_def split: if_splits option.splits)

lemma add_received_block_fields:
  assumes "add_received_block bn bid s = (None, s1)"
  shows "revision (db s1) = revision (db s)" "commits (db s1) = commits (db s)"
    "undo_stack (db s1) = undo_stack (db s)"
    "irreversible s1 = irreversible s" "exporter_will_ack s1 = exporter_will_ack s"
    "exporter_acked_block s1 = exporter_acked_block s" "published s1 = published s"
    "head s1 = head s"
  using add_received_block_ok [OF assms]
  by (auto simp: set_received_blocks_def)

lemma set_positions_fields:
  "db (set_positions tb li s) = db s"
  "irreversible (set_positions tb li s) = block_num li"
  "head (set_positions tb li s) = block_num tb"
  "exporter_will_ack (set_positions tb li s) = exporter_will_ack s"
  "exporter_acked_block (set_positions tb li s) = exporter_acked_block s"
  "published (set_positions tb li s) = published s"
  by (simp_all add: set_positions_def)

lemma finish_block_fields:
  "revision (db (finish_block s)) = revision (db s)"
  "received_blocks_table (tables (db (finish_block s))) = received_blocks_table (tables (db s))"
  "commits (db (finish_block s)) = commits (db s) @ [uint (commit_rev s)]"
  "irreversible (finish_block s) = irreversible s"
  "exporter_will_ack (finish_block s) = exporter_will_ack s"
  "exporter_acked_block (finish_block s) = exporter_acked_block s"
  "commit_rev (finish_block s) = commit_rev s"
  "head (finish_block s) = head s"
  "published (finish_block s) = published s"
  by (simp_all add: finish_block_def save_state_def commit_def commit_rev_def Let_def)

section \<open>Properties of \<^verbatim>\<open>receive_result\<close>\<close>

lemma receive_result_returned_true:
  assumes "this_block result = Some tb" and "receive_result A result s = (Returned True, s')"
  shows "\<exists>s2 s3.
           head_branch result (block_num tb) (raise_revision (block_num tb) s) = (None, s2) \<and>
           in_session A result tb (s2\<lparr>db := start_undo_session (db s2)\<rparr>) = (None, s3) \<and>
           \<not> aborting s3 \<and> s' = finish_block s3"
  using assms
  by (simp add: receive_result_def split: prod.splits option.splits if_splits)

lemma in_session_ok:
  assumes "in_session A result tb s = (None, s3)"
  shows "\<exists>s1. add_received_block (block_num tb) (block_id tb) s = (None, s1) \<and>
           receive_payloads A result (set_positions tb (last_irreversible result) s1) = (None, s3)"
  using assms
  by (simp add: in_session_def and_then_def split: prod.splits option.splits)

lemma success_chain:
  assumes "this_block result = Some tb" and "receive_result A result s = (Returned True, s')"
  shows "\<exists>s2 s1 s3.
           head_branch result (block_num tb) (raise_revision (block_num tb) s) = (None, s2) \<and>
           add_received_block (block_num tb) (block_id tb)
             (s2\<lparr>db := start_undo_session (db s2)\<rparr>) = (None, s1) \<and>
           receive_payloads A result (set_positions tb (last_irreversible result) s1) = (None, s3) \<and>
           s' = finish_block s3"
proof -
  from receive_result_returned_true [OF assms] obtain s2 s3 where
    hb: "head_branch result (block_num tb) (raise_revision (block_num tb) s) = (None, s2)" and
    ins: "in_session A result tb (s2\<lparr>db := start_undo_session (db s2)\<rparr>) = (None, s3)" and
    fin: "s' = finish_block s3"
    by blast
  from in_session_ok [OF ins] hb fin show ?thesis by blast
qed

lemma in_session_events:
  "\<exists>evs. published (snd (in_session A result tb s)) = published s @ evs \<and>
         list_all (payload_event (blacklist_actions s)) evs"
proof (cases "add_received_block (block_num tb) (block_id tb) s")
  case (Pair r s1)
  show ?thesis
  proof (cases r)
    case (Some e)
    with Pair have "s1 = s"
      by (auto simp: add_received_block_def split: if_splits option.splits)
    with Pair Some show ?thesis
      by (simp add: in_session_def and_then_def)
  next
    case None
    with Pair have p1: "published s1 = published s" "blacklist_actions s1 = blacklist_actions s"
      using add_received_block_ok [of "block_num tb" "block_id tb" s s1]
      by (auto simp: add_received_block_fields)
    have "payload_step (set_positions tb (last_irreversible result) s1)
            (snd (receive_payloads A result (set_positions tb (last_irreversible result) s1)))"
      by (rule payload_step_receive_payloads)
    then obtain evs where
      "published (snd (receive_payloads A result (set_positions tb (last_irreversible result) s1)))
         = published s @ evs" and "list_all (payload_event (blacklist_actions s)) evs"
      using p1 by (auto simp: payload_step_def set_positions_fields set_positions_def)
    with Pair None show ?thesis
      by (simp add: in_session_def and_then_def)
  qed
qed

lemma receive_result_after_branch:
  assumes "this_block result = Some tb"
    and "head_branch result (block_num tb) (raise_revision (block_num tb) s) = (None, s2)"
  shows "published (snd (receive_result A result s)) =
           published (snd (in_session A result tb (s2\<lparr>db := start_undo_session (db s2)\<rparr>)))"
  using assms
  by (simp add: receive_result_def finish_block_fields split: prod.splits option.splits)

lemma handle_fork_events:
  "\<exists>pre. published (snd (handle_fork bn s)) = published s @ pre \<and> list_all is_fork_event pre"
proof -
  obtain r d where rb: "rollback (uint bn) (db (init_contract_abi_ctxt s)) = (r, d)"
    by (cases "rollback (uint bn) (db (init_contract_abi_ctxt s))")
  have p: "published (init_contract_abi_ctxt s) = published s"
    by (simp add: init_contract_abi_ctxt_def split: option.splits)
  show ?thesis
  proof (cases r)
    case (Some e)
    with rb p show ?thesis
      by (simp add: handle_fork_def Let_def)
  next
    case None
    with rb p show ?thesis
      by (simp add: handle_fork_def Let_def publish_def)
  qed
qed

lemma head_branch_events:
  "\<exists>pre. published (snd (head_branch result bn s)) = published s @ pre \<and> list_all is_fork_event pre"
proof (cases "block_num (last_irreversible result) < bn \<and> bn \<le> head s")
  case True
  then have "head_branch result bn s = handle_fork bn s"
    by (simp add: head_branch_def)
  with handle_fork_events [of bn s] show ?thesis by simp
next
  case False
  then have "published (snd (head_branch result bn s)) = published s"
    by (auto simp: head_branch_def)
  then show ?thesis by simp
qed

lemma receive_result_events:
  "\<exists>pre evs. new_events s (snd (receive_result A result s)) = pre @ evs \<and>
     list_all is_fork_event pre \<and> list_all (payload_event (blacklist_actions s)) evs"
proof (cases "this_block result")
  case None
  then show ?thesis
    by (simp add: receive_result_def new_events_def)
next
  case (Some tb)
  define s0 where "s0 = raise_revision (block_num tb) s"
  have s0: "published s0 = published s" "blacklist_actions s0 = blacklist_actions s"
    by (simp_all add: s0_def raise_revision_def)
  obtain r s2 where hb: "head_branch result (block_num tb) s0 = (r, s2)"
    by (cases "head_branch result (block_num tb) s0")
  from head_branch_events [of result "block_num tb" s0] hb s0 obtain pre where
    pre: "published s2 = published s @ pre" "list_all is_fork_event pre"
    by auto
  have bl: "blacklist_actions s2 = blacklist_actions s"
    using branch_step_head_branch [of s0 result "block_num tb"] hb s0
    by (simp add: branch_step_def)
  show ?thesis
  proof (cases r)
    case (Some e)
    with \<open>this_block result = Some tb\<close> hb have "snd (receive_result A result s) = s2"
      by (simp add: receive_result_def s0_def)
    with pre have "new_events s (snd (receive_result A result s)) = pre @ []"
      by (simp add: new_events_def)
    with pre(2) show ?thesis
      by (intro exI [of _ pre] exI [of _ "[]"]) simp
  next
    case None
    from in_session_events [of A result tb "s2\<lparr>db := start_undo_session (db s2)\<rparr>"] bl
    obtain evs where
      ev: "published (snd (in_session A result tb (s2\<lparr>db := start_undo_session (db s2)\<rparr>)))
             = published s2 @ evs" and
      pe: "list_all (payload_event (blacklist_actions s)) evs"
      by auto
    have "published (snd (receive_result A result s)) = published s2 @ evs"
      using receive_result_after_branch [of result tb s s2 A] \<open>this_block result = Some tb\<close>
        hb None ev
      by (simp add: s0_def)
    with pre have "new_events s (snd (receive_result A result s)) = pre @ evs"
      by (simp add: new_events_def)
    with pre(2) pe show ?thesis by blast
  qed
qed

lemma blacklisted_not_among:
  assumes "list_all is_fork_event pre" and "list_all (payload_event bl) evs"
    and "blacklisted bl tr"
  shows "Transaction_trace_event bn ts tr \<notin> set (pre @ evs)"
proof
  assume "Transaction_trace_event bn ts tr \<in> set (pre @ evs)"
  then consider "Transaction_trace_event bn ts tr \<in> set pre"
    | "Transaction_trace_event bn ts tr \<in> set evs"
    by auto
  then show False
  proof cases
    case 1
    with assms(1) have "is_fork_event (Transaction_trace_event bn ts tr)"
      unfolding list_all_iff by blast
    then show False by simp
  next
    case 2
    with assms(2) have "payload_event bl (Transaction_trace_event bn ts tr)"
      unfolding list_all_iff by blast
    with assms(3) show False by simp
  qed
qed

text \<open>
  C8. A decoded transaction trace whose first action trace has an (account, name) pair
  in the action blacklist is not among the events that \<^verbatim>\<open>receive_traces\<close> publishes,
  whatever the buffer holds, nor among the events that \<^verbatim>\<open>receive_result\<close> publishes
  for any frame; and the blacklist that \<^verbatim>\<open>plugin_initialize\<close> builds from an empty
  one maps \<^verbatim>\<open>eosio\<close> to \<^verbatim>\<open>onblock\<close> and (the two account names being
  different values) \<^verbatim>\<open>blocktwitter\<close> to \<^verbatim>\<open>tweet\<close>.
\<close>

theorem blacklisted_trace_never_published:
  "(tt_traces tr = a # rest \<and> blacklist_actions s (at_account a) = Some acts \<and> at_name a \<in> acts
      \<longrightarrow> Transaction_trace_event bn ts tr \<notin> set (new_events s (snd (receive_traces buf s))) \<and>
          Transaction_trace_event bn ts tr
            \<notin> set (new_events s (snd (receive_result A result s)))) \<and>
   (blacklist_actions s = Map.empty \<longrightarrow>
      blacklist_actions (plugin_initialize N d q s) (N ''eosio'') = Some {N ''onblock''} \<and>
      (N ''blocktwitter'' \<noteq> N ''eosio'' \<longrightarrow>
         blacklist_actions (plugin_initialize N d q s) (N ''blocktwitter'') = Some {N ''tweet''}))"
proof -
  have "Transaction_trace_event bn ts tr \<notin> set (new_events s (snd (receive_traces buf s))) \<and>
        Transaction_trace_event bn ts tr \<notin> set (new_events s (snd (receive_result A result s)))"
    if "tt_traces tr = a # rest" "blacklist_actions s (at_account a) = Some acts" "at_name a \<in> acts"
  proof -
    from that have bl: "blacklisted (blacklist_actions s) tr"
      by (simp add: blacklisted_def)
    have t: "Transaction_trace_event bn ts tr \<notin> set (new_events s (snd (receive_traces buf s)))"
    proof (cases "has_subscribers s Transaction_traces")
      case False
      then show ?thesis
        by (simp add: receive_traces_no_subscribers)
    next
      case True
      show ?thesis
      proof (cases buf)
        case (Bad_input msg)
        then show ?thesis
          by (simp add: receive_traces_bad_input)
      next
        case (Items xs)
        with True bl show ?thesis
          by (auto simp: receive_traces_items)
      qed
    qed
    from receive_result_events [of s A result] obtain pre evs where
      "new_events s (snd (receive_result A result s)) = pre @ evs"
      "list_all is_fork_event pre" "list_all (payload_event (blacklist_actions s)) evs"
      by blast
    with bl have "Transaction_trace_event bn ts tr
                    \<notin> set (new_events s (snd (receive_result A result s)))"
      using blacklisted_not_among [of pre "blacklist_actions s" evs tr bn ts] by simp
    with t show ?thesis by simp
  qed
  moreover have "blacklist_actions (plugin_initialize N d q s) (N ''eosio'') = Some {N ''onblock''}"
    if "blacklist_actions s = Map.empty"
    using that by (simp add: plugin_initialize_def emplace_def)
  moreover have "blacklist_actions (plugin_initialize N d q s) (N ''blocktwitter'') = Some {N ''tweet''}"
    if "blacklist_actions s = Map.empty" "N ''blocktwitter'' \<noteq> N ''eosio''"
    using that by (simp add: plugin_initialize_def emplace_def)
  ultimately show ?thesis by blast
qed

theorem blacklisted_trace_never_published_witness:
  "tt_traces onblock_trace =
     [\<lparr>at_account = 6138663577826885632, at_name = 11875739475730497536\<rparr>] \<and>
   blacklist_actions started 6138663577826885632 = Some {11875739475730497536} \<and>
   Transaction_trace_event 0 0 onblock_trace
     \<notin> set (new_events started (snd (receive_traces (Items [Inr onblock_trace]) started))) \<and>
   new_events started (snd (receive_result no_abieos traced_frame started)) =
     [Transaction_trace_event 1 0 bare_trace] \<and>
   blacklist_actions (plugin_initialize example_names empty_database 10000 constructed)
     (example_names ''blocktwitter'') = Some {example_names ''tweet''}"
proof -
  have e: "new_events started (snd (receive_result no_abieos traced_frame started)) =
     [Transaction_trace_event 1 0 bare_trace]"
    by (simp add: eval_defs traced_frame_def receive_traces_def blacklisted_def onblock_trace_def
        bare_trace_def emplace_def example_names_def)
  from blacklisted_trace_never_published
    [of onblock_trace "\<lparr>at_account = 6138663577826885632, at_name = 11875739475730497536\<rparr>" "[]"
        started "{11875739475730497536}" 0 0 "Items [Inr onblock_trace]" no_abieos traced_frame
        example_names empty_database 10000]
    blacklisted_trace_never_published
    [of onblock_trace _ _ constructed _ 0 0 "Items [Inr onblock_trace]" no_abieos traced_frame
        example_names empty_database 10000] e
  show ?thesis
    by (simp add: onblock_trace_def started_def plugin_initialize_def emplace_def
      constructed_def example_names_def)
qed

text \<open>
  C9. For a decoded frame without \<^verbatim>\<open>this_block\<close>, \<^verbatim>\<open>receive_result\<close> returns true
  and the whole state is as before: head and irreversible positions, the store with
  its revision, received blocks and ABI rows, the imported set, and the published
  events.
\<close>

theorem receive_result_without_this_block:
  "this_block result = None \<Longrightarrow> receive_result A result s = (Returned True, s)"
  by (simp add: receive_result_def)

theorem receive_result_without_this_block_witness:
  "this_block heartbeat = None \<and>
   receive_result no_abieos heartbeat started = (Returned True, started)"
  using receive_result_without_this_block [of heartbeat no_abieos started]
  by (simp add: heartbeat_def block_frame_def)

text \<open>
  C5. A frame whose block is above the last irreversible block and above the head,
  received when the head is above 0, with \<^verbatim>\<open>prev_block\<close> absent or with another id
  than \<^verbatim>\<open>head_id\<close>, makes \<^verbatim>\<open>receive_result\<close> throw
  ``prev_block does not match''. No undo scope has been opened: the state at the throw
  is the one before the frame except that the store revision may have been raised to
  the block number; head and irreversible positions, the tables (with the received
  blocks), the undo stack and the published events are unchanged.
\<close>

theorem prev_block_mismatch_throws:
  assumes "this_block result = Some tb"
    and "block_num (last_irreversible result) < block_num tb"
    and "head s < block_num tb" and "0 < head s"
    and "prev_block result = None \<or>
         (\<exists>pb. prev_block result = Some pb \<and> block_id pb \<noteq> head_id s)"
  shows "receive_result A result s = (Threw Prev_block_mismatch, raise_revision (block_num tb) s) \<and>
         head (raise_revision (block_num tb) s) = head s \<and>
         head_id (raise_revision (block_num tb) s) = head_id s \<and>
         irreversible (raise_revision (block_num tb) s) = irreversible s \<and>
         irreversible_id (raise_revision (block_num tb) s) = irreversible_id s \<and>
         tables (db (raise_revision (block_num tb) s)) = tables (db s) \<and>
         undo_stack (db (raise_revision (block_num tb) s)) = undo_stack (db s) \<and>
         published (raise_revision (block_num tb) s) = published s"
proof -
  have h: "head (raise_revision (block_num tb) s) = head s"
    and hi: "head_id (raise_revision (block_num tb) s) = head_id s"
    by (simp_all add: raise_revision_def)
  from assms(3) have nle: "\<not> block_num tb \<le> head s" by simp
  have "head_branch result (block_num tb) (raise_revision (block_num tb) s) =
          (Some Prev_block_mismatch, raise_revision (block_num tb) s)"
    using assms(2,4,5) nle h hi
    by (auto simp: head_branch_def)
  with assms(1) show ?thesis
    by (simp add: receive_result_def) (simp add: raise_revision_def set_revision_def)
qed

theorem prev_block_mismatch_throws_witness:
  "this_block bad_frame2 = Some \<lparr>block_num = 2, block_id = 22\<rparr> \<and>
   head after1 = 1 \<and> head_id after1 = 11 \<and>
   prev_block bad_frame2 = Some \<lparr>block_num = 1, block_id = 99\<rparr> \<and>
   revision (db after1) = 1 \<and>
   receive_result no_abieos bad_frame2 after1 =
     (Threw Prev_block_mismatch, after1\<lparr>db := (db after1)\<lparr>revision := 2\<rparr>\<rparr>) \<and>
   receive_result no_abieos (bad_frame2\<lparr>prev_block := None\<rparr>) after1 =
     (Threw Prev_block_mismatch, after1\<lparr>db := (db after1)\<lparr>revision := 2\<rparr>\<rparr>)"
proof -
  have t: "this_block bad_frame2 = Some \<lparr>block_num = 2, block_id = 22\<rparr>"
    "this_block (bad_frame2\<lparr>prev_block := None\<rparr>) = Some \<lparr>block_num = 2, block_id = 22\<rparr>"
    by (simp_all add: eval_defs)
  have l: "block_num (last_irreversible bad_frame2) < block_num \<lparr>block_num = 2, block_id = 22\<rparr>"
    "block_num (last_irreversible (bad_frame2\<lparr>prev_block := None\<rparr>))
       < block_num \<lparr>block_num = 2, block_id = 22\<rparr>"
    by (simp_all add: eval_defs)
  have h: "head after1 < block_num \<lparr>block_num = 2, block_id = 22\<rparr>" "0 < head after1"
    by (simp_all add: eval_defs)
  have p1: "prev_block bad_frame2 = None \<or>
         (\<exists>pb. prev_block bad_frame2 = Some pb \<and> block_id pb \<noteq> head_id after1)"
    by (simp add: eval_defs)
  have p2: "prev_block (bad_frame2\<lparr>prev_block := None\<rparr>) = None \<or>
         (\<exists>pb. prev_block (bad_frame2\<lparr>prev_block := None\<rparr>) = Some pb \<and> block_id pb \<noteq> head_id after1)"
    by simp
  have rr: "raise_revision 2 after1 = after1\<lparr>db := (db after1)\<lparr>revision := 2\<rparr>\<rparr>"
    by (simp add: eval_defs)
  from prev_block_mismatch_throws [OF t(1) l(1) h p1, of no_abieos]
    prev_block_mismatch_throws [OF t(2) l(2) h p2, of no_abieos] rr
  show ?thesis
    by (simp add: eval_defs)
qed

text \<open>
  C6. A frame with \<^verbatim>\<open>this_block\<close> for which \<^verbatim>\<open>receive_result\<close> returns true ends
  with exactly one more \<^verbatim>\<open>commit\<close> call on the store; its argument is the new
  irreversible number (that of the frame's \<^verbatim>\<open>last_irreversible\<close>), or the
  acknowledged block when acknowledgement is enabled and that block is lower: the
  minimum of the two.
\<close>

theorem commit_at_irreversible_or_ack:
  assumes "this_block result = Some tb" and "receive_result A result s = (Returned True, s')"
  shows "commits (db s') = commits (db s) @
           [uint (min (irreversible s')
              (if exporter_will_ack s then exporter_acked_block s else irreversible s'))] \<and>
         irreversible s' = block_num (last_irreversible result)"
proof -
  from success_chain [OF assms] obtain s2 s1 s3 where
    hb: "head_branch result (block_num tb) (raise_revision (block_num tb) s) = (None, s2)" and
    ab: "add_received_block (block_num tb) (block_id tb)
             (s2\<lparr>db := start_undo_session (db s2)\<rparr>) = (None, s1)" and
    rp: "receive_payloads A result (set_positions tb (last_irreversible result) s1) = (None, s3)" and
    fin: "s' = finish_block s3"
    by blast
  have b1: "branch_step s (raise_revision (block_num tb) s)"
    by (rule branch_step_raise_revision)
  have b2: "branch_step (raise_revision (block_num tb) s) s2"
    using branch_step_head_branch [of "raise_revision (block_num tb) s" result "block_num tb"] hb
    by simp
  have p: "payload_step (set_positions tb (last_irreversible result) s1) s3"
    using rp by (rule payloads_fields)
  have c3: "commits (db s3) = commits (db s)"
    using b1 b2 p add_received_block_fields(2) [OF ab]
    by (simp add: branch_step_def payload_step_def set_positions_fields start_undo_session_def)
  have i3: "irreversible s3 = block_num (last_irreversible result)"
    using p by (simp add: payload_step_def set_positions_fields)
  have w3: "exporter_will_ack s3 = exporter_will_ack s"
    using b1 b2 p add_received_block_fields(5) [OF ab]
    by (simp add: branch_step_def payload_step_def set_positions_fields)
  have a3: "exporter_acked_block s3 = exporter_acked_block s"
    using b1 b2 p add_received_block_fields(6) [OF ab]
    by (simp add: branch_step_def payload_step_def set_positions_fields)
  have cr: "commit_rev s3 = min (irreversible s3)
              (if exporter_will_ack s3 then exporter_acked_block s3 else irreversible s3)"
    by (auto simp: commit_rev_def min_def)
  show ?thesis
    using fin c3 i3 w3 a3 cr by (simp add: finish_block_fields)
qed

theorem commit_at_irreversible_or_ack_witness:
  "this_block frame3 = Some \<lparr>block_num = 3, block_id = 33\<rparr> \<and>
   fst (receive_result no_abieos frame3 acknowledged) = Returned True \<and>
   exporter_will_ack acknowledged \<and> exporter_acked_block acknowledged = 1 \<and>
   irreversible (snd (receive_result no_abieos frame3 acknowledged)) = 2 \<and>
   commits (db acknowledged) = [0, 0] \<and>
   commits (db (snd (receive_result no_abieos frame3 acknowledged))) = [0, 0, 1] \<and>
   commits (db (snd (receive_result no_abieos frame3 after2))) = [0, 0, 2]"
proof -
  have r: "receive_result no_abieos frame3 acknowledged =
             (Returned True, snd (receive_result no_abieos frame3 acknowledged))"
    "receive_result no_abieos frame3 after2 =
             (Returned True, snd (receive_result no_abieos frame3 after2))"
    by (simp_all add: eval_defs)
  have t: "this_block frame3 = Some \<lparr>block_num = 3, block_id = 33\<rparr>"
    by (simp add: eval_defs)
  from commit_at_irreversible_or_ack [OF t r(1)] commit_at_irreversible_or_ack [OF t r(2)]
  show ?thesis
    by (simp add: eval_defs)
qed

text \<open>
  C3, as the code has it. The received blocks are truncated up to the irreversible
  number known before the frame (line 479 runs before line 487 assigns the new one),
  and only when the block is above that number. So after a frame for which
  \<^verbatim>\<open>receive_result\<close> returns true and whose block is above the previously known
  irreversible number, every received block has a \<^verbatim>\<open>block_index\<close> that is at least
  that previous number, and the frame's block is among them.
\<close>

theorem received_blocks_above_previous_irreversible:
  assumes "this_block result = Some tb" and "receive_result A result s = (Returned True, s')"
    and "irreversible s < block_num tb"
  shows "(\<forall>e \<in> set (received_blocks_table (tables (db s'))). irreversible s \<le> fst e) \<and>
         (block_num tb, block_id tb) \<in> set (received_blocks_table (tables (db s')))"
proof -
  from success_chain [OF assms(1,2)] obtain s2 s1 s3 where
    hb: "head_branch result (block_num tb) (raise_revision (block_num tb) s) = (None, s2)" and
    ab: "add_received_block (block_num tb) (block_id tb)
             (s2\<lparr>db := start_undo_session (db s2)\<rparr>) = (None, s1)" and
    rp: "receive_payloads A result (set_positions tb (last_irreversible result) s1) = (None, s3)" and
    fin: "s' = finish_block s3"
    by blast
  have b1: "branch_step s (raise_revision (block_num tb) s)"
    by (rule branch_step_raise_revision)
  have b2: "branch_step (raise_revision (block_num tb) s) s2"
    using branch_step_head_branch [of "raise_revision (block_num tb) s" result "block_num tb"] hb
    by simp
  have irr: "irreversible (s2\<lparr>db := start_undo_session (db s2)\<rparr>) = irreversible s"
    using b1 b2 by (simp add: branch_step_def)
  from add_received_block_ok [OF ab] irr assms(3) obtain rs where
    t: "truncate_old_blocks (irreversible s)
          (received_blocks_table (tables (db (s2\<lparr>db := start_undo_session (db s2)\<rparr>)))
             @ [(block_num tb, block_id tb)]) = Some rs" and
    s1: "s1 = s2\<lparr>db := set_received_blocks rs (start_undo_session (db s2))\<rparr>"
    by auto
  have p: "payload_step (set_positions tb (last_irreversible result) s1) s3"
    using rp by (rule payloads_fields)
  have ring: "received_blocks_table (tables (db s')) = rs"
    using p fin s1
    by (simp add: payload_step_def set_positions_fields finish_block_fields set_received_blocks_def)
  have "irreversible s \<le> fst e" if "e \<in> set rs" for e
    using truncate_old_blocks_bound [OF t that] .
  moreover have "(block_num tb, block_id tb) \<in> set rs"
    using truncate_old_blocks_keeps [OF t, of "(block_num tb, block_id tb)"] assms(3)
    by simp
  ultimately show ?thesis
    using ring by simp
qed

theorem received_blocks_above_previous_irreversible_witness:
  "this_block frame4 = Some \<lparr>block_num = 4, block_id = 44\<rparr> \<and>
   fst (receive_result no_abieos frame4 after3) = Returned True \<and>
   irreversible after3 = 2 \<and>
   received_blocks_table (tables (db after3)) = [(1, 11), (2, 22), (3, 33)] \<and>
   received_blocks_table (tables (db (snd (receive_result no_abieos frame4 after3)))) =
     [(2, 22), (3, 33), (4, 44)] \<and>
   list_all (\<lambda>e. irreversible after3 \<le> fst e)
     (received_blocks_table (tables (db (snd (receive_result no_abieos frame4 after3)))))"
proof -
  have r: "receive_result no_abieos frame4 after3 =
             (Returned True, snd (receive_result no_abieos frame4 after3))"
    by (simp add: eval_defs)
  have t: "this_block frame4 = Some \<lparr>block_num = 4, block_id = 44\<rparr>"
    by (simp add: eval_defs)
  have i: "irreversible after3 < block_num \<lparr>block_num = 4, block_id = 44\<rparr>"
    by (simp add: eval_defs)
  from received_blocks_above_previous_irreversible [OF t r i]
  have "list_all (\<lambda>e. irreversible after3 \<le> fst e)
     (received_blocks_table (tables (db (snd (receive_result no_abieos frame4 after3)))))"
    by (simp add: list_all_iff)
  then show ?thesis
    by (simp add: eval_defs)
qed

text \<open>
  C3 as stated fails: with blocks 1 and 2 received and irreversible number 0, the
  frame of block 3 that moves the irreversible number to 2 leaves block 1 among the
  received blocks.
\<close>

theorem received_blocks_counterexample:
  "this_block frame3 = Some \<lparr>block_num = 3, block_id = 33\<rparr> \<and>
   fst (receive_result no_abieos frame3 after2) = Returned True \<and>
   irreversible (snd (receive_result no_abieos frame3 after2)) = 2 \<and>
   (1, 11) \<in> set (received_blocks_table (tables (db (snd (receive_result no_abieos frame3 after2))))) \<and>
   \<not> (\<forall>e \<in> set (received_blocks_table (tables (db (snd (receive_result no_abieos frame3 after2))))).
        irreversible (snd (receive_result no_abieos frame3 after2)) \<le> fst e)"
  by (simp add: eval_defs)

section \<open>The store revision after a frame\<close>





section \<open>Fork frames\<close>

text \<open>
  The rollback loop in closed form: the loop undoes as many scopes as the revision
  is at or above the block number, and stops earlier, with the failure of
  \<^verbatim>\<open>undo\<close>, when the undo stack holds fewer.
\<close>

lemma undone_0: "undone 0 d = d"
  by (simp add: undone_def)

lemma undone_undo:
  assumes "undo d = Inr d'"
  shows "undone k d' = undone (Suc k) d"
proof -
  from assms obtain sc rest where
    st: "undo_stack d = sc # rest" and
    d': "d' = d\<lparr>revision := revision d - 1, undo_stack := rest, tables := snd sc\<rparr>"
    by (auto simp: undo_def split: list.splits)
  show ?thesis
    by (cases k) (simp_all add: undone_def st d')
qed

lemma rollback_undone:
  "rollback b d =
     (if revision d < b then (None, d)
      else if nat (revision d - b) < length (undo_stack d)
           then (None, undone (nat (revision d - b) + 1) d)
           else (Some Undo_at_baseline, undone (length (undo_stack d)) d))"
proof (induction b d rule: rollback.induct)
  case (1 b d)
  show ?case
  proof (cases "b \<le> revision d")
    case False
    then show ?thesis by (simp add: rollback.simps)
  next
    case True
    show ?thesis
    proof (cases "undo d")
      case (Inl e)
      then have "undo_stack d = []" "e = Undo_at_baseline"
        by (auto simp: undo_def split: list.splits)
      with True Inl show ?thesis
        by (simp add: rollback.simps undone_0)
    next
      case (Inr d')
      then obtain sc rest where
        st: "undo_stack d = sc # rest" and
        rev: "revision d' = revision d - 1" and st': "undo_stack d' = rest"
        by (auto simp: undo_def split: list.splits)
      have rb: "rollback b d = rollback b d'"
        using True Inr by (simp add: rollback.simps)
      note ih = "1.IH" [OF True Inr]
      show ?thesis
      proof (cases "revision d = b")
        case True
        with ih rev have "rollback b d' = (None, d')" by simp
        moreover have "undone (Suc 0) d = d'"
          using undone_undo [OF Inr, of 0] by (simp add: undone_0)
        ultimately show ?thesis
          using rb True st by simp
      next
        case False
        with \<open>b \<le> revision d\<close> have gt: "b < revision d" by simp
        then have n: "nat (revision d - b) = Suc (nat (revision d - 1 - b))"
          by simp
        have nl: "\<not> revision d' < b" using gt rev by simp
        show ?thesis
          using rb ih nl gt n rev st st' undone_undo [OF Inr]
          by simp
      qed
    qed
  qed
qed

lemma undone_revision: "revision (undone k d) = revision d - int k"
  by (simp add: undone_def)

lemma undone_commits: "commits (undone k d) = commits d"
  by (simp add: undone_def)

lemma raise_revision_db:
  "db (raise_revision bn s) = (db s)\<lparr>revision := max (revision (db s)) (uint bn)\<rparr>"
  by (simp add: raise_revision_def set_revision_def max_def)

lemma init_contract_abi_ctxt_eq:
  "init_contract_abi_ctxt s =
     s\<lparr>contract_abi_ctxt := Some Map.empty,
       contract_abi_imported :=
         (if contract_abi_ctxt s = None then contract_abi_imported s else {})\<rparr>"
  by (simp add: init_contract_abi_ctxt_def split: option.splits)

lemma handle_fork_undone:
  assumes "uint bn \<le> revision (db s)"
  shows "handle_fork bn s =
     (if nat (revision (db s) - uint bn) < length (undo_stack (db s)) then
        if uint bn \<le> 1 then
          (Some (Cannot_rollback (uint bn - 1)),
           (init_contract_abi_ctxt s)\<lparr>db := undone (nat (revision (db s) - uint bn) + 1) (db s)\<rparr>)
        else
          (None,
           publish (Fork_event bn (head s - bn) Network)
             ((init_contract_abi_ctxt s)\<lparr>db := undone (nat (revision (db s) - uint bn) + 1) (db s)\<rparr>))
      else
        (Some Undo_at_baseline,
         (init_contract_abi_ctxt s)\<lparr>db := undone (length (undo_stack (db s))) (db s)\<rparr>))"
proof -
  have d: "db (init_contract_abi_ctxt s) = db s"
    by (simp add: init_contract_abi_ctxt_def split: option.splits)
  have r: "revision (undone (nat (revision (db s) - uint bn) + 1) (db s)) = uint bn - 1"
    using assms by (simp add: undone_revision)
  show ?thesis
    using assms r
    by (simp add: handle_fork_def Let_def d rollback_undone [of "uint bn" "db s"])
qed

lemma fork_block_1:
  fixes b l :: u32
  assumes "l < b"
  shows "uint b \<le> 1 \<longleftrightarrow> b = 1"
proof
  assume "uint b \<le> 1"
  moreover from assms have "b \<noteq> 0"
    by (auto simp: word_less_nat_alt)
  then have "uint b \<noteq> 0" by (simp add: uint_0_iff)
  moreover have "0 \<le> uint b" by simp
  ultimately have "uint b = 1" by linarith
  then have "word_of_int (uint b) = (word_of_int 1 :: u32)" by simp
  then show "b = 1" by simp
next
  assume "b = 1"
  then show "uint b \<le> 1" by simp
qed

text \<open>
  C4. For a frame whose block \<open>b\<close> is above the last irreversible block and not above
  the head, \<^verbatim>\<open>receive_result\<close> goes through the fork branch. The ABI decode context
  is replaced by an empty one (and the imported set emptied, when there was a
  context). The store, its revision first raised to \<open>b\<close> when it was below, is undone
  \<open>k\<close> times, \<open>k\<close> being its revision minus \<open>b\<close> plus one: that many scopes leave the
  undo stack, the tables are those the last of them saved, and the revision is
  \<open>b - 1\<close>. When the undo stack holds fewer than \<open>k\<close> scopes, \<^verbatim>\<open>undo\<close> fails at the
  baseline once they are all undone and \<^verbatim>\<open>receive_result\<close> throws; when \<open>b\<close> is 1
  the loop ends at revision 0 and \<^verbatim>\<open>receive_result\<close> throws ``Cannot rollback'';
  either way nothing has been published. Otherwise the \<^verbatim>\<open>fork_event\<close> of block \<open>b\<close>,
  with depth \<^verbatim>\<open>head - block_num\<close> and reason \<^verbatim>\<open>network\<close>, is published on the
  rolled back state, the rest of \<^verbatim>\<open>receive_result\<close> runs from there, and the events
  published for the frame start with that \<^verbatim>\<open>fork_event\<close> and hold no other fork
  event.
\<close>

theorem fork_frame_rolls_back_and_announces:
  assumes "this_block result = Some tb"
    and "block_num (last_irreversible result) < block_num tb"
    and "block_num tb \<le> head s"
  shows "let b = block_num tb;
             d = (db s)\<lparr>revision := max (revision (db s)) (uint b)\<rparr>;
             k = nat (revision d - uint b) + 1;
             s1 = s\<lparr>contract_abi_ctxt := Some Map.empty,
                    contract_abi_imported :=
                      (if contract_abi_ctxt s = None then contract_abi_imported s else {})\<rparr>
         in if length (undo_stack d) < k then
              receive_result A result s =
                (Threw Undo_at_baseline, s1\<lparr>db := undone (length (undo_stack d)) d\<rparr>)
            else if b = 1 then
              receive_result A result s = (Threw (Cannot_rollback 0), s1\<lparr>db := undone k d\<rparr>)
            else
              let s2 = publish (Fork_event b (head s - b) Network) (s1\<lparr>db := undone k d\<rparr>)
              in head_branch result b (raise_revision b s) = (None, s2) \<and>
                 revision (db s2) = uint b - 1 \<and> 0 < revision (db s2) \<and>
                 receive_result A result s =
                   (case in_session A result tb (s2\<lparr>db := start_undo_session (db s2)\<rparr>) of
                      (Some e, s3) \<Rightarrow> (Threw e, s3\<lparr>db := drop_session (db s3)\<rparr>)
                    | (None, s3) \<Rightarrow>
                        if aborting s3 then (Returned False, s3\<lparr>db := drop_session (db s3)\<rparr>)
                        else (Returned True, finish_block s3)) \<and>
                 (\<exists>evs. new_events s (snd (receive_result A result s)) =
                           Fork_event b (head s - b) Network # evs \<and>
                         list_all (\<lambda>e. \<not> is_fork_event e) evs)"
proof -
  define b where "b = block_num tb"
  define s0 where "s0 = raise_revision b s"
  define d where "d = (db s)\<lparr>revision := max (revision (db s)) (uint b)\<rparr>"
  define k where "k = nat (revision d - uint b) + 1"
  define s1 where "s1 = s\<lparr>contract_abi_ctxt := Some Map.empty,
                    contract_abi_imported :=
                      (if contract_abi_ctxt s = None then contract_abi_imported s else {})\<rparr>"
  have db0: "db s0 = d"
    by (simp add: s0_def d_def raise_revision_db)
  have ge: "uint b \<le> revision (db s0)"
    by (simp add: db0 d_def)
  have s0: "head s0 = head s" "published s0 = published s"
    by (simp_all add: s0_def raise_revision_def)
  have i0: "init_contract_abi_ctxt s0 = s1\<lparr>db := d\<rparr>"
    unfolding init_contract_abi_ctxt_eq s1_def
    by (simp add: s0_def raise_revision_def d_def set_revision_def max_def)
  have hb: "head_branch result b s0 = handle_fork b s0"
    using assms(2,3) s0 by (simp add: head_branch_def b_def)
  have b1: "uint b \<le> 1 \<longleftrightarrow> b = 1"
    using fork_block_1 [OF assms(2)] by (simp add: b_def)
  note hf = handle_fork_undone [OF ge, unfolded db0 i0]
  have kk: "nat (revision d - uint b) < length (undo_stack d) \<longleftrightarrow> \<not> length (undo_stack d) < k"
    by (auto simp: k_def)
  have thr: "receive_result A result s = (Threw e, s')" if "handle_fork b s0 = (Some e, s')" for e s'
    using that hb assms(1)
    by (simp add: receive_result_def b_def [symmetric] s0_def [symmetric])
  have main: "if length (undo_stack d) < k then
              receive_result A result s =
                (Threw Undo_at_baseline, s1\<lparr>db := undone (length (undo_stack d)) d\<rparr>)
            else if b = 1 then
              receive_result A result s = (Threw (Cannot_rollback 0), s1\<lparr>db := undone k d\<rparr>)
            else
              let s2 = publish (Fork_event b (head s - b) Network) (s1\<lparr>db := undone k d\<rparr>)
              in head_branch result b (raise_revision b s) = (None, s2) \<and>
                 revision (db s2) = uint b - 1 \<and> 0 < revision (db s2) \<and>
                 receive_result A result s =
                   (case in_session A result tb (s2\<lparr>db := start_undo_session (db s2)\<rparr>) of
                      (Some e, s3) \<Rightarrow> (Threw e, s3\<lparr>db := drop_session (db s3)\<rparr>)
                    | (None, s3) \<Rightarrow>
                        if aborting s3 then (Returned False, s3\<lparr>db := drop_session (db s3)\<rparr>)
                        else (Returned True, finish_block s3)) \<and>
                 (\<exists>evs. new_events s (snd (receive_result A result s)) =
                           Fork_event b (head s - b) Network # evs \<and>
                         list_all (\<lambda>e. \<not> is_fork_event e) evs)"
  proof (cases "length (undo_stack d) < k")
    case True
    with hf kk have "handle_fork b s0 =
        (Some Undo_at_baseline, s1\<lparr>db := undone (length (undo_stack d)) d\<rparr>)"
      by simp
    from thr [OF this] True show ?thesis
      by simp
  next
    case False
    note enough = this
    show ?thesis
    proof (cases "b = 1")
      case True
      have "uint b - 1 = 0"
        using True by simp
      with hf kk enough b1 True have "handle_fork b s0 =
          (Some (Cannot_rollback 0), s1\<lparr>db := undone k d\<rparr>)"
        by (simp add: k_def)
      from thr [OF this] enough True show ?thesis
        by simp
    next
      case False
      define s2 where "s2 = publish (Fork_event b (head s - b) Network) (s1\<lparr>db := undone k d\<rparr>)"
      from hf kk enough False b1 s0 have hf2: "handle_fork b s0 = (None, s2)"
        by (simp add: k_def s2_def)
      have r2: "revision (db s2) = uint b - 1"
        by (simp add: s2_def publish_def undone_revision k_def d_def)
      have pos: "0 < revision (db s2)"
        using r2 b1 False by simp
      have p2: "published s2 = published s @ [Fork_event b (head s - b) Network]"
        by (simp add: s2_def publish_def s1_def)
      have rr: "receive_result A result s =
                   (case in_session A result tb (s2\<lparr>db := start_undo_session (db s2)\<rparr>) of
                      (Some e, s3) \<Rightarrow> (Threw e, s3\<lparr>db := drop_session (db s3)\<rparr>)
                    | (None, s3) \<Rightarrow>
                        if aborting s3 then (Returned False, s3\<lparr>db := drop_session (db s3)\<rparr>)
                        else (Returned True, finish_block s3))"
        using assms(1) hb hf2
        by (simp add: receive_result_def b_def [symmetric] s0_def [symmetric])
      from in_session_events [of A result tb "s2\<lparr>db := start_undo_session (db s2)\<rparr>"]
      obtain evs where
        ev: "published (snd (in_session A result tb (s2\<lparr>db := start_undo_session (db s2)\<rparr>)))
               = published s2 @ evs" and nf: "list_all (\<lambda>e. \<not> is_fork_event e) evs"
        by (auto dest: payload_event_no_fork)
      have "published (snd (receive_result A result s)) = published s2 @ evs"
        using receive_result_after_branch [of result tb s s2 A] assms(1) hb hf2 ev
        by (simp add: b_def s0_def)
      then have ne: "new_events s (snd (receive_result A result s)) =
                   Fork_event b (head s - b) Network # evs"
        using p2 by (simp add: new_events_def)
      from hb hf2 have hb2: "head_branch result b (raise_revision b s) = (None, s2)"
        by (simp add: s0_def)
      show ?thesis
        using enough False hb2 r2 pos rr ne nf
        unfolding s2_def [symmetric] Let_def
        by simp
    qed
  qed
  then show ?thesis
    unfolding Let_def b_def [symmetric] d_def [symmetric] k_def [symmetric] s1_def [symmetric] .
qed

theorem fork_frame_rolls_back_and_announces_witness:
  "this_block fork2 = Some \<lparr>block_num = 2, block_id = 23\<rparr> \<and>
   block_num (last_irreversible fork2) = 1 \<and> head at_head3 = 3 \<and>
   revision (db at_head3) = 3 \<and> length (undo_stack (db at_head3)) = 2 \<and>
   received_blocks_table (tables (db at_head3)) = [(1, 11), (2, 22), (3, 33)] \<and>
   head_branch fork2 2 (raise_revision 2 at_head3) =
     (None, publish (Fork_event 2 1 Network) (at_head3\<lparr>db := undone 2 (db at_head3)\<rparr>)) \<and>
   revision (undone 2 (db at_head3)) = 1 \<and>
   undo_stack (undone 2 (db at_head3)) = [] \<and>
   received_blocks_table (tables (undone 2 (db at_head3))) = [(1, 11)] \<and>
   fst (receive_result no_abieos fork2 at_head3) = Returned True \<and>
   new_events at_head3 (snd (receive_result no_abieos fork2 at_head3)) = [Fork_event 2 1 Network] \<and>
   received_blocks_table (tables (db (snd (receive_result no_abieos fork2 at_head3)))) =
     [(1, 11), (2, 23)] \<and>
   head (snd (receive_result no_abieos fork2 at_head3)) = 2 \<and>
   this_block fork1 = Some \<lparr>block_num = 1, block_id = 12\<rparr> \<and>
   block_num (last_irreversible fork1) = 0 \<and> head after1 = 1 \<and> head late = 2 \<and>
   length (undo_stack (db after1)) = 1 \<and> length (undo_stack (db late)) = 1 \<and>
   receive_result no_abieos fork1 after1 =
     (Threw (Cannot_rollback 0), after1\<lparr>db := undone 1 (db after1)\<rparr>) \<and>
   receive_result no_abieos fork1 late =
     (Threw Undo_at_baseline, late\<lparr>db := undone 1 (db late)\<rparr>) \<and>
   published (snd (receive_result no_abieos fork1 after1)) = [] \<and>
   published (snd (receive_result no_abieos fork1 late)) = []"
proof -
  have t: "this_block fork2 = Some \<lparr>block_num = 2, block_id = 23\<rparr>"
    "this_block fork1 = Some \<lparr>block_num = 1, block_id = 12\<rparr>"
    by (simp_all add: eval_defs)
  have l: "block_num (last_irreversible fork2) < block_num \<lparr>block_num = 2, block_id = 23\<rparr>"
    "block_num (last_irreversible fork1) < block_num \<lparr>block_num = 1, block_id = 12\<rparr>"
    by (simp_all add: eval_defs)
  have h: "block_num \<lparr>block_num = 2, block_id = 23\<rparr> \<le> head at_head3"
    "block_num \<lparr>block_num = 1, block_id = 12\<rparr> \<le> head after1"
    "block_num \<lparr>block_num = 1, block_id = 12\<rparr> \<le> head late"
    by (simp_all add: eval_defs)
  have st: "revision (db at_head3) = 3" "length (undo_stack (db at_head3)) = 2"
    "revision (db after1) = 1" "length (undo_stack (db after1)) = 1"
    "revision (db late) = 2" "length (undo_stack (db late)) = 1"
    "contract_abi_ctxt at_head3 = Some Map.empty" "contract_abi_imported at_head3 = {}"
    "contract_abi_ctxt after1 = Some Map.empty" "contract_abi_imported after1 = {}"
    "contract_abi_ctxt late = Some Map.empty" "contract_abi_imported late = {}"
    "head at_head3 = 3"
    by (simp_all add: eval_defs)
  have id: "at_head3\<lparr>contract_abi_ctxt := Some Map.empty, contract_abi_imported := {}\<rparr> = at_head3"
    "after1\<lparr>contract_abi_ctxt := Some Map.empty, contract_abi_imported := {}\<rparr> = after1"
    "late\<lparr>contract_abi_ctxt := Some Map.empty, contract_abi_imported := {}\<rparr> = late"
    "(db at_head3)\<lparr>revision := 3\<rparr> = db at_head3"
    "(db after1)\<lparr>revision := 1\<rparr> = db after1"
    "(db late)\<lparr>revision := 2\<rparr> = db late"
    by (simp_all add: eval_defs)
  have two: "undone (Suc (Suc 0)) (db at_head3) = undone 2 (db at_head3)"
    by (simp add: numeral_2_eq_2)
  from fork_frame_rolls_back_and_announces [OF t(1) l(1) h(1), of no_abieos]
  have a: "head_branch fork2 2 (raise_revision 2 at_head3) =
     (None, publish (Fork_event 2 1 Network) (at_head3\<lparr>db := undone 2 (db at_head3)\<rparr>))"
    by (simp add: Let_def st id two)
  from fork_frame_rolls_back_and_announces [OF t(2) l(2) h(2), of no_abieos]
  have b: "receive_result no_abieos fork1 after1 =
     (Threw (Cannot_rollback 0), after1\<lparr>db := undone 1 (db after1)\<rparr>)"
    by (simp add: Let_def st id)
  from fork_frame_rolls_back_and_announces [OF t(2) l(2) h(3), of no_abieos]
  have c: "receive_result no_abieos fork1 late =
     (Threw Undo_at_baseline, late\<lparr>db := undone 1 (db late)\<rparr>)"
    by (simp add: Let_def st id)
  from a b c show ?thesis
    by (simp add: eval_defs undone_def)
qed

end
